theory Spec2Isabelle
  imports Main "HOL-Library.Sublist"
begin

section \<open>JavaScript values\<close>

text \<open>
  The settings files are read with \<^verbatim>\<open>JSON.parse\<close>, so the values that flow through
  \<^verbatim>\<open>helpers.js\<close> are JSON values. An object is its table of own enumerable properties,
  listed in the order in which JavaScript enumerates them; \<^verbatim>\<open>JSON.parse\<close> never produces
  two properties with one key, and every object it builds has \<^verbatim>\<open>Object.prototype\<close> as its
  prototype. A property set on a table that lacks its key goes to the end; that
  JavaScript moves integer-like keys to the front shows only in the text that
  \<^verbatim>\<open>JSON.stringify\<close> writes, not in which value a key has. Numbers are only copied, never
  computed on, so \<open>int\<close> stands for them.

  Two more values can reach \<^verbatim>\<open>deepMerge\<close>, as \<^verbatim>\<open>target[key]\<close> for a key that names an
  inherited property: a built-in function (\<^verbatim>\<open>target.constructor\<close>, \<^verbatim>\<open>target.toString\<close>, ...),
  and \<^verbatim>\<open>Object.prototype\<close> itself (\<^verbatim>\<open>target.__proto__\<close>). The built-in functions all behave
  alike here, so one value stands for them.
\<close>

datatype json =
    JNull
  | JBool bool
  | JNumber int
  | JString string
  | JArray "json list"
  | JObject "(string \<times> json) list"
  | JFunction
  | JObjectPrototype

text \<open>The conversion to boolean that \<^verbatim>\<open>&&\<close>, \<^verbatim>\<open>if\<close> and \<^verbatim>\<open>!\<close> apply.\<close>

fun truthy :: "json \<Rightarrow> bool" where
  "truthy JNull = False"
| "truthy (JBool b) = b"
| "truthy (JNumber n) = (n \<noteq> 0)"
| "truthy (JString s) = (s \<noteq> [])"
| "truthy (JArray xs) = True"
| "truthy (JObject ps) = True"
| "truthy JFunction = True"
| "truthy JObjectPrototype = True"

fun typeof :: "json \<Rightarrow> string" where
  "typeof JNull = ''object''"
| "typeof (JBool b) = ''boolean''"
| "typeof (JNumber n) = ''number''"
| "typeof (JString s) = ''string''"
| "typeof (JArray xs) = ''object''"
| "typeof (JObject ps) = ''object''"
| "typeof JFunction = ''function''"
| "typeof JObjectPrototype = ''object''"

fun Array_isArray :: "json \<Rightarrow> bool" where
  "Array_isArray (JArray xs) = True"
| "Array_isArray v = False"

text \<open>\<^verbatim>\<open>return (item && typeof item === 'object' && !Array.isArray(item));\<close>\<close>

definition isObject :: "json \<Rightarrow> bool" where
  "isObject item = (truthy item \<and> typeof item = ''object'' \<and> \<not> Array_isArray item)"

text \<open>
  Defining an own property on a property table: an existing property keeps its place and
  takes the new value, a new property goes to the end. A table lists the properties in the
  order of their definition; JavaScript enumerates integer-like keys first, in ascending
  order, which changes the order in which a merged object lists its keys and none of its
  values.
\<close>

primrec setProperty :: "string \<Rightarrow> 'v \<Rightarrow> (string \<times> 'v) list \<Rightarrow> (string \<times> 'v) list" where
  "setProperty key v [] = [(key, v)]"
| "setProperty key v (p # ps) =
     (if fst p = key then (key, v) # ps else p # setProperty key v ps)"

text \<open>Decimal name of an array index, as JavaScript spells the property key.\<close>

fun indexName :: "nat \<Rightarrow> string" where
  "indexName n =
     (if n < 10 then [char_of (48 + n)]
      else indexName (n div 10) @ [char_of (48 + n mod 10)])"

declare indexName.simps [simp del]

text \<open>
  The own enumerable properties of a value, the ones \<^verbatim>\<open>Object.assign\<close> reads from its
  source and \<^verbatim>\<open>Object.keys\<close> lists: those of an object, the elements of an array under
  their indices, the characters of a string under their indices, none for the other
  primitives, for a built-in function and for \<^verbatim>\<open>Object.prototype\<close>.
\<close>

fun ownProperties :: "json \<Rightarrow> (string \<times> json) list" where
  "ownProperties (JObject ps) = ps"
| "ownProperties (JArray xs) = map (\<lambda>i. (indexName i, xs ! i)) [0..<length xs]"
| "ownProperties (JString s) = map (\<lambda>i. (indexName i, JString [s ! i])) [0..<length s]"
| "ownProperties v = []"

definition Object_keys :: "json \<Rightarrow> string list" where
  "Object_keys obj = map fst (ownProperties obj)"

text \<open>The properties of \<^verbatim>\<open>Object.prototype\<close>, which every object built by \<^verbatim>\<open>JSON.parse\<close> inherits.\<close>

definition objectPrototypeNames :: "string list" where
  "objectPrototypeNames =
     [''constructor'', ''__defineGetter__'', ''__defineSetter__'', ''hasOwnProperty'',
      ''__lookupGetter__'', ''__lookupSetter__'', ''isPrototypeOf'', ''propertyIsEnumerable'',
      ''toString'', ''valueOf'', ''__proto__'', ''toLocaleString'']"

text \<open>
  What a read of \<open>key\<close> finds past the own enumerable properties: on an object built by
  \<^verbatim>\<open>JSON.parse\<close> the inherited \<^verbatim>\<open>__proto__\<close> getter answers \<^verbatim>\<open>Object.prototype\<close> and the other
  names are functions; on \<^verbatim>\<open>Object.prototype\<close> itself the getter answers \<^verbatim>\<open>null\<close>.
\<close>

fun builtinProperty :: "json \<Rightarrow> string \<Rightarrow> json option" where
  "builtinProperty (JObject ps) key =
     (if key = ''__proto__'' then Some JObjectPrototype
      else if key \<in> set objectPrototypeNames then Some JFunction
      else None)"
| "builtinProperty JObjectPrototype key =
     (if key = ''__proto__'' then Some JNull
      else if key \<in> set objectPrototypeNames then Some JFunction
      else None)"
| "builtinProperty v key = None"

text \<open>
  \<^verbatim>\<open>obj[key]\<close> together with \<^verbatim>\<open>key in obj\<close>, for an \<open>obj\<close> that passed \<^verbatim>\<open>isObject\<close>: the own
  property if there is one, else the inherited one; \<open>None\<close> is \<^verbatim>\<open>key in obj\<close> being false.
\<close>

definition getProperty :: "json \<Rightarrow> string \<Rightarrow> json option" where
  "getProperty obj key =
     (case map_of (ownProperties obj) key of
        Some v \<Rightarrow> Some v
      | None \<Rightarrow> builtinProperty obj key)"

text \<open>
  The object that \<^verbatim>\<open>deepMerge\<close> builds is its prototype and its table of own properties.
  The prototype starts as \<^verbatim>\<open>Object.prototype\<close> and changes only through the \<^verbatim>\<open>__proto__\<close>
  setter.
\<close>

datatype proto = ObjectProto | NullProto | ValueProto json

type_synonym object = "proto \<times> (string \<times> json) list"

text \<open>
  Whether a write to \<^verbatim>\<open>__proto__\<close> on an object with this prototype ends in the setter of
  \<^verbatim>\<open>Object.prototype\<close>: not when the chain is cut by \<^verbatim>\<open>null\<close>, and not when the prototype is
  a parsed object with an own property of that name, which the write then shadows.
\<close>

fun reachesSetter :: "proto \<Rightarrow> bool" where
  "reachesSetter ObjectProto = True"
| "reachesSetter NullProto = False"
| "reachesSetter (ValueProto (JObject ps)) = (map_of ps ''__proto__'' = None)"
| "reachesSetter (ValueProto v) = True"

text \<open>
  \<^verbatim>\<open>output[key] = v\<close>, which is also what \<^verbatim>\<open>Object.assign\<close> does for each property. Every
  inherited property but one is a writable data property, so the write defines an own
  property. \<^verbatim>\<open>__proto__\<close> is an accessor: its setter makes an object, an array, a function
  or \<^verbatim>\<open>null\<close> the new prototype, ignores any other value, and defines no property.
\<close>

fun ordinarySet :: "string \<Rightarrow> json \<Rightarrow> object \<Rightarrow> object" where
  "ordinarySet key v (proto, props) =
     (if key = ''__proto__'' \<and> reachesSetter proto then
        (if v = JNull then (NullProto, props)
         else if v = JObjectPrototype then (ObjectProto, props)
         else if typeof v = ''object'' \<or> typeof v = ''function'' then (ValueProto v, props)
         else (proto, props))
      else (proto, setProperty key v props))"

declare ordinarySet.simps [simp del]

text \<open>
  \<^verbatim>\<open>Object.assign(output, from)\<close>: every own enumerable property of \<open>from\<close> is written to
  \<open>output\<close>, in order.
\<close>

definition Object_assign :: "object \<Rightarrow> json \<Rightarrow> object" where
  "Object_assign output from =
     foldl (\<lambda>out p. ordinarySet (fst p) (snd p) out) output (ownProperties from)"

section \<open>Deep merge\<close>

text \<open>
  \<^verbatim>\<open>
  function deepMerge(target, source) {
      const output = Object.assign({}, target);
      if (isObject(target) && isObject(source)) {
          Object.keys(source).forEach(key => {
              if (isObject(source[key])) {
                  if (!(key in target)) {
                      Object.assign(output, { [key]: source[key] });
                  } else {
                      output[key] = deepMerge(target[key], source[key]);
                  }
              } else {
                  Object.assign(output, { [key]: source[key] });
              }
          });
      }
      return output;
  }
  \<close>
  The \<^verbatim>\<open>forEach\<close> loop is a \<open>foldl\<close> over the keys of the source, threading \<open>output\<close>.
  \<^verbatim>\<open>key in target\<close> and \<^verbatim>\<open>target[key]\<close> are one lookup; the \<open>None\<close> branch of
  \<^verbatim>\<open>source[key]\<close> is never taken, since the key comes from \<^verbatim>\<open>Object.keys(source)\<close>. The
  literal \<^verbatim>\<open>{ [key]: source[key] }\<close> has the one own property, whatever the key. The result
  is given by its own properties: nothing in \<^verbatim>\<open>helpers.js\<close> reads the prototype of a merged
  object, and \<^verbatim>\<open>JSON.stringify\<close> writes own properties only.
\<close>

function deepMerge :: "json \<Rightarrow> json \<Rightarrow> json" where
  "deepMerge target source =
     (let output = Object_assign (ObjectProto, []) target in
      if isObject target \<and> isObject source then
        JObject (snd (foldl (\<lambda>output key.
          case getProperty source key of
            None \<Rightarrow> output
          | Some sv \<Rightarrow>
              if isObject sv then
                (case getProperty target key of
                   None \<Rightarrow> Object_assign output (JObject [(key, sv)])
                 | Some tv \<Rightarrow> ordinarySet key (deepMerge tv sv) output)
              else Object_assign output (JObject [(key, sv)]))
          output (Object_keys source)))
      else JObject (snd output))"
  by pat_completeness auto
termination
proof (relation "measure (\<lambda>(target, source). size source)")
  show "wf (measure (\<lambda>(target, source). size source))"
    by simp
next
  fix target source :: json and key :: string and sv tv :: json
  assume obj: "isObject target \<and> isObject source"
    and key: "key \<in> set (Object_keys source)"
    and sv: "getProperty source key = Some sv"
  from obj key obtain ps where ps: "source = JObject ps"
    by (cases source) (simp_all add: Object_keys_def isObject_def)
  from key ps have "key \<in> fst ` set ps"
    by (simp add: Object_keys_def)
  then have "map_of ps key \<noteq> None"
    by (simp add: map_of_eq_None_iff)
  then obtain v where "map_of ps key = Some v"
    by blast
  with sv ps have "(key, sv) \<in> set ps"
    by (simp add: getProperty_def map_of_SomeD)
  then have "size sv < Suc (size_list (size_prod (\<lambda>_. 0) size) ps)"
    by (induction ps) auto
  with ps show "((tv, sv), (target, source)) \<in> measure (\<lambda>(target, source). size source)"
    by simp
qed

declare deepMerge.simps [simp del]

section \<open>Deep merge on the object heap\<close>

text \<open>
  In JavaScript an object is a reference: \<^verbatim>\<open>Object.assign\<close> copies references, and an
  assignment to \<^verbatim>\<open>output[key]\<close> changes the one object that every holder of the reference
  sees. To say what \<^verbatim>\<open>deepMerge\<close> mutates, the function is written a second time, over a
  store: a heap is the list of allocated cells, an address is an index into it, and
  \<^verbatim>\<open>{}\<close> allocates at the end. A cell holds the own properties of its object; the store
  leaves out prototypes, so here every key is read and written as an own property.
  On values whose keys name no inherited property the two versions agree, as is proved
  below.
\<close>

datatype val = VNull | VBool bool | VNumber int | VString string | VRef nat

datatype cell = ObjectCell "(string \<times> val) list" | ArrayCell "val list"

type_synonym heap = "cell list"

definition cellAt :: "heap \<Rightarrow> nat \<Rightarrow> cell option" where
  "cellAt h a = (if a < length h then Some (h ! a) else None)"

text \<open>\<^verbatim>\<open>isObject\<close>: a reference to a cell that is not an array.\<close>

fun isObjectH :: "heap \<Rightarrow> val \<Rightarrow> bool" where
  "isObjectH h (VRef a) = (case cellAt h a of Some (ObjectCell ps) \<Rightarrow> True | _ \<Rightarrow> False)"
| "isObjectH h v = False"

fun ownPropertiesH :: "heap \<Rightarrow> val \<Rightarrow> (string \<times> val) list" where
  "ownPropertiesH h (VRef a) =
     (case cellAt h a of
        Some (ObjectCell ps) \<Rightarrow> ps
      | Some (ArrayCell xs) \<Rightarrow> map (\<lambda>i. (indexName i, xs ! i)) [0..<length xs]
      | None \<Rightarrow> [])"
| "ownPropertiesH h (VString s) = map (\<lambda>i. (indexName i, VString [s ! i])) [0..<length s]"
| "ownPropertiesH h v = []"

definition Object_keysH :: "heap \<Rightarrow> val \<Rightarrow> string list" where
  "Object_keysH h obj = map fst (ownPropertiesH h obj)"

definition getPropertyH :: "heap \<Rightarrow> val \<Rightarrow> string \<Rightarrow> val option" where
  "getPropertyH h obj key = map_of (ownPropertiesH h obj) key"

text \<open>\<^verbatim>\<open>output[key] = v\<close>: the cell at \<open>output\<close> is replaced by one with the property set.\<close>

definition setPropertyH :: "heap \<Rightarrow> nat \<Rightarrow> string \<Rightarrow> val \<Rightarrow> heap" where
  "setPropertyH h output key v =
     (case cellAt h output of
        Some (ObjectCell ps) \<Rightarrow> h[output := ObjectCell (setProperty key v ps)]
      | _ \<Rightarrow> h)"

text \<open>\<^verbatim>\<open>Object.assign(output, from)\<close>, for an \<open>output\<close> other than \<open>from\<close>.\<close>

definition Object_assignH :: "heap \<Rightarrow> nat \<Rightarrow> val \<Rightarrow> heap" where
  "Object_assignH h output from =
     foldl (\<lambda>h' p. setPropertyH h' output (fst p) (snd p)) h (ownPropertiesH h from)"

text \<open>\<^verbatim>\<open>Object.assign(output, { [key]: v })\<close>: the literal is allocated, then assigned from.\<close>

definition assignLiteralH :: "heap \<Rightarrow> nat \<Rightarrow> string \<Rightarrow> val \<Rightarrow> heap" where
  "assignLiteralH h output key v =
     (let literal = length h; h1 = h @ [ObjectCell [(key, v)]]
      in Object_assignH h1 output (VRef literal))"

text \<open>
  \<open>deepMergeH n\<close> is \<^verbatim>\<open>deepMerge\<close> with room for \<open>n\<close> nested calls on the stack; \<open>None\<close>
  is the stack running out, which a cyclic source can cause. \<open>forEachH\<close> is the
  \<^verbatim>\<open>forEach\<close> loop over the remaining keys, \<open>output\<close> being the address of the new object.
\<close>

fun deepMergeH :: "nat \<Rightarrow> heap \<Rightarrow> val \<Rightarrow> val \<Rightarrow> (val \<times> heap) option"
  and forEachH :: "nat \<Rightarrow> heap \<Rightarrow> val \<Rightarrow> val \<Rightarrow> nat \<Rightarrow> string list \<Rightarrow> heap option" where
  "deepMergeH 0 h target source = None"
| "deepMergeH (Suc n) h target source =
     (let output = length h;
          h1 = h @ [ObjectCell []];
          h2 = Object_assignH h1 output target
      in if isObjectH h2 target \<and> isObjectH h2 source then
           (case forEachH n h2 target source output (Object_keysH h2 source) of
              None \<Rightarrow> None
            | Some h3 \<Rightarrow> Some (VRef output, h3))
         else Some (VRef output, h2))"
| "forEachH n h target source output [] = Some h"
| "forEachH n h target source output (key # keys) =
     (case getPropertyH h source key of
        None \<Rightarrow> forEachH n h target source output keys
      | Some sv \<Rightarrow>
          if isObjectH h sv then
            (case getPropertyH h target key of
               None \<Rightarrow> forEachH n (assignLiteralH h output key sv) target source output keys
             | Some tv \<Rightarrow>
                 (case deepMergeH n h tv sv of
                    None \<Rightarrow> None
                  | Some (merged, h') \<Rightarrow>
                      forEachH n (setPropertyH h' output key merged) target source output keys))
          else forEachH n (assignLiteralH h output key sv) target source output keys)"

text \<open>
  A value whose objects nest at most \<open>n\<close> deep, with no dangling reference on the way:
  what \<^verbatim>\<open>JSON.parse\<close> builds. Arrays are not entered, as \<^verbatim>\<open>deepMerge\<close> does not enter them.
\<close>

primrec nestedWithin :: "nat \<Rightarrow> heap \<Rightarrow> val \<Rightarrow> bool" where
  "nestedWithin 0 h v =
     (case v of
        VRef a \<Rightarrow> (case cellAt h a of Some (ArrayCell xs) \<Rightarrow> True | _ \<Rightarrow> False)
      | _ \<Rightarrow> True)"
| "nestedWithin (Suc n) h v =
     (case v of
        VRef a \<Rightarrow>
          (case cellAt h a of
             Some (ArrayCell xs) \<Rightarrow> True
           | Some (ObjectCell ps) \<Rightarrow> list_all (\<lambda>p. nestedWithin n h (snd p)) ps
           | None \<Rightarrow> False)
      | _ \<Rightarrow> True)"

text \<open>
  \<open>represents A h v j\<close>: in the heap \<open>h\<close> the value \<open>v\<close> is the JSON value \<open>j\<close>, read through
  addresses that satisfy \<open>A\<close> only. It ties the function on the heap to \<open>deepMerge\<close> on
  JSON values.
\<close>

fun represents :: "(nat \<Rightarrow> bool) \<Rightarrow> heap \<Rightarrow> val \<Rightarrow> json \<Rightarrow> bool" where
  "represents A h v JNull = (v = VNull)"
| "represents A h v (JBool b) = (v = VBool b)"
| "represents A h v (JNumber n) = (v = VNumber n)"
| "represents A h v (JString s) = (v = VString s)"
| "represents A h v JFunction = False"
| "represents A h v JObjectPrototype = False"
| "represents A h v (JArray xs) =
     (case v of
        VRef a \<Rightarrow>
          A a \<and> (case cellAt h a of
                   Some (ArrayCell vs) \<Rightarrow> list_all2 (\<lambda>v x. represents A h v x) vs xs
                 | _ \<Rightarrow> False)
      | _ \<Rightarrow> False)"
| "represents A h v (JObject ps) =
     (case v of
        VRef a \<Rightarrow>
          A a \<and> (case cellAt h a of
                   Some (ObjectCell vps) \<Rightarrow>
                     list_all2 (\<lambda>vp p. fst vp = fst p \<and> represents A h (snd vp) (snd p)) vps ps
                 | _ \<Rightarrow> False)
      | _ \<Rightarrow> False)"

definition representsAll ::
  "(nat \<Rightarrow> bool) \<Rightarrow> heap \<Rightarrow> (string \<times> val) list \<Rightarrow> (string \<times> json) list \<Rightarrow> bool" where
  "representsAll A h vps ps =
     list_all2 (\<lambda>vp p. fst vp = fst p \<and> represents A h (snd vp) (snd p)) vps ps"

text \<open>
  A value in which no key of an object names a property of \<^verbatim>\<open>Object.prototype\<close>, as deep as
  \<^verbatim>\<open>deepMerge\<close> goes (it does not enter arrays).
\<close>

fun plainKeys :: "json \<Rightarrow> bool" where
  "plainKeys (JObject ps) =
     list_all (\<lambda>p. fst p \<notin> set objectPrototypeNames \<and> plainKeys (snd p)) ps"
| "plainKeys v = True"

section \<open>The host: workspace, platform, file system, notifications\<close>

text \<open>
  What a path holds, seen through \<^verbatim>\<open>JSON.parse(await fs.promises.readFile(path, 'utf8'))\<close>:
  text that parses to a JSON value, text on which \<^verbatim>\<open>JSON.parse\<close> throws, or something
  \<^verbatim>\<open>readFile\<close> cannot read (a directory, a file without permission). The string is the
  message of the error thrown.
\<close>

datatype entry = Content json | Malformed string | Unreadable string

datatype message = ErrorMessage string | InformationMessage string

datatype exn = TypeError string | FsError string

fun exn_message :: "exn \<Rightarrow> string" where
  "exn_message (TypeError m) = m"
| "exn_message (FsError m) = m"

text \<open>
  \<open>workspaceFolders\<close> lists the \<^verbatim>\<open>uri.fsPath\<close> of every folder of
  \<^verbatim>\<open>vscode.workspace.workspaceFolders\<close>, \<open>None\<close> when the editor leaves it undefined (no
  workspace open). \<open>writeError\<close> is the error \<^verbatim>\<open>fs.writeFile\<close> reports, if it fails;
  \<open>createError\<close> is the error raised inside the \<^verbatim>\<open>try\<close> block of
  \<^verbatim>\<open>createFileIfNotExists\<close>, if any.
\<close>

record host =
  workspaceFolders :: "string list option"
  platform :: string
  files :: "string \<Rightarrow> entry option"
  writeError :: "string option"
  createError :: "string option"
  notifications :: "message list"
  console :: "string list"

datatype 'a outcome = Return 'a | Throw exn

type_synonym 'a io = "host \<Rightarrow> 'a outcome \<times> host"

text \<open>\<^verbatim>\<open>await\<close> in sequence: a rejection ends the rest of the function.\<close>

definition bind :: "'a io \<Rightarrow> ('a \<Rightarrow> 'b io) \<Rightarrow> 'b io" where
  "bind m f h = (case m h of (Return a, h') \<Rightarrow> f a h' | (Throw e, h') \<Rightarrow> (Throw e, h'))"

definition return :: "'a \<Rightarrow> 'a io" where
  "return a h = (Return a, h)"

definition showErrorMessage :: "string \<Rightarrow> unit io" where
  "showErrorMessage m h = (Return (), h\<lparr>notifications := notifications h @ [ErrorMessage m]\<rparr>)"

definition showInformationMessage :: "string \<Rightarrow> unit io" where
  "showInformationMessage m h =
     (Return (), h\<lparr>notifications := notifications h @ [InformationMessage m]\<rparr>)"

definition console_log :: "string \<Rightarrow> unit io" where
  "console_log m h = (Return (), h\<lparr>console := console h @ [m]\<rparr>)"

definition PLATFORMS :: "(string \<times> string) list" where
  "PLATFORMS =
     [(''all'', ''all''), (''win32'', ''windows''), (''darwin'', ''macos''), (''linux'', ''linux'')]"

text \<open>
  The argument \<^verbatim>\<open>os\<close> of the path functions: a platform name, the \<^verbatim>\<open>false\<close> that
  \<^verbatim>\<open>getOsName\<close> returns for an unknown platform, or no argument at all.
\<close>

datatype os_tag = OsName string | OsFalse | OsUndefined

fun os_truthy :: "os_tag \<Rightarrow> bool" where
  "os_truthy (OsName s) = (s \<noteq> [])"
| "os_truthy OsFalse = False"
| "os_truthy OsUndefined = False"

fun os_text :: "os_tag \<Rightarrow> string" where
  "os_text (OsName s) = s"
| "os_text OsFalse = ''false''"
| "os_text OsUndefined = ''undefined''"

text \<open>
  \<^verbatim>\<open>path.join\<close> on segments that need no normalisation, joined by the POSIX separator. On
  Windows the separator is a backslash: that changes how a path is spelled, as a key of
  the file system and in a notification alike, and nothing else.
\<close>

fun path_join :: "string list \<Rightarrow> string" where
  "path_join [] = ''.''"
| "path_join [p] = p"
| "path_join (p # ps) = p @ ''/'' @ path_join ps"

text \<open>
  \<^verbatim>\<open>
  function getSettingFilePath(os) {
      const fileName = os ? `settings.${os}.json` : 'settings.json';
      return path.join(vscode.workspace.workspaceFolders[0].uri.fsPath, '.vscode', fileName);
  }
  \<close>
  Indexing an undefined \<^verbatim>\<open>workspaceFolders\<close>, or reading \<^verbatim>\<open>uri\<close> of the missing first
  element of an empty one, throws a TypeError, with the message that Node gives it.
\<close>

definition getSettingFilePath :: "os_tag \<Rightarrow> string io" where
  "getSettingFilePath os h =
     (let fileName = (if os_truthy os then ''settings.'' @ os_text os @ ''.json''
                      else ''settings.json'')
      in case workspaceFolders h of
           None \<Rightarrow> (Throw (TypeError ''Cannot read properties of undefined (reading '0')''), h)
         | Some [] \<Rightarrow> (Throw (TypeError ''Cannot read properties of undefined (reading 'uri')''), h)
         | Some (fsPath # rest) \<Rightarrow> (Return (path_join [fsPath, ''.vscode'', fileName]), h))"

text \<open>\<^verbatim>\<open>fileExists\<close>: \<^verbatim>\<open>fs.promises.access(filePath, F_OK)\<close>, any error answered \<^verbatim>\<open>false\<close>.\<close>

definition fileExists :: "string \<Rightarrow> bool io" where
  "fileExists filePath h = (Return (files h filePath \<noteq> None), h)"

text \<open>\<^verbatim>\<open>JSON.parse(await fs.promises.readFile(filePath, 'utf8'))\<close>, \<open>Inl\<close> the error message.\<close>

definition readJson :: "host \<Rightarrow> string \<Rightarrow> string + json" where
  "readJson h filePath =
     (case files h filePath of
        None \<Rightarrow> Inl ''ENOENT: no such file or directory''
      | Some (Content j) \<Rightarrow> Inr j
      | Some (Malformed m) \<Rightarrow> Inl m
      | Some (Unreadable m) \<Rightarrow> Inl m)"

text \<open>
  \<^verbatim>\<open>
  async function getFileContent(filePath) {
      if (await fileExists(filePath)) {
          try {
              const osSettings = JSON.parse(await fs.promises.readFile(filePath, 'utf8'));
              return osSettings;
          } catch (error) {
              vscode.window.showErrorMessage(`Error reading settings file: ${error.message}`);
              return {};
          }
      } else {
          vscode.window.showErrorMessage(`Settings file not found: ${filePath}`);
          return {};
      }
  }
  \<close>
\<close>

definition getFileContent :: "string \<Rightarrow> json io" where
  "getFileContent filePath =
     bind (fileExists filePath) (\<lambda>found.
       if found then
         (\<lambda>h. case readJson h filePath of
                Inr osSettings \<Rightarrow> return osSettings h
              | Inl m \<Rightarrow>
                  bind (showErrorMessage (''Error reading settings file: '' @ m))
                    (\<lambda>_. return (JObject [])) h)
       else
         bind (showErrorMessage (''Settings file not found: '' @ filePath))
           (\<lambda>_. return (JObject [])))"

definition getSettingsFileContent :: "os_tag \<Rightarrow> json io" where
  "getSettingsFileContent os = bind (getSettingFilePath os) getFileContent"

text \<open>
  \<^verbatim>\<open>
  function getOsName() {
      const os = process.platform;
      if (PLATFORMS.hasOwnProperty(os)) {
          return PLATFORMS[os];
      } else {
          vscode.window.showErrorMessage(`Unsupported operating system: ${os}`);
          return false;
      }
  }
  \<close>
\<close>

definition getOsName :: "os_tag io" where
  "getOsName h =
     (let os = platform h in
      case map_of PLATFORMS os of
        Some name \<Rightarrow> return (OsName name) h
      | None \<Rightarrow>
          bind (showErrorMessage (''Unsupported operating system: '' @ os))
            (\<lambda>_. return OsFalse) h)"

text \<open>\<^verbatim>\<open>xs.map(f)\<close> for an \<open>f\<close> that may throw: the first throw ends the map.\<close>

fun mapM :: "('a \<Rightarrow> 'b io) \<Rightarrow> 'a list \<Rightarrow> 'b list io" where
  "mapM f [] = return []"
| "mapM f (x # xs) = bind (f x) (\<lambda>y. bind (mapM f xs) (\<lambda>ys. return (y # ys)))"

text \<open>\<^verbatim>\<open>!!results[i]\<close>: an index past the end reads \<^verbatim>\<open>undefined\<close>, which is falsy.\<close>

definition resultAt :: "bool list \<Rightarrow> nat \<Rightarrow> bool" where
  "resultAt results i = (i < length results \<and> results ! i)"

text \<open>
  \<^verbatim>\<open>
  async function isValid() {
      const settingsFiles = Object.values(PLATFORMS).map(os => getSettingFilePath(os));
      const results = await Promise.all(settingsFiles.map(fileExists));
      return !!results[0] || !!results[1] || !!results[2] || !!results[3];
  }
  \<close>
  The existence checks only read the file system, so running them one after the other
  gives what \<^verbatim>\<open>Promise.all\<close> gives.
\<close>

definition isValid :: "bool io" where
  "isValid =
     bind (mapM (\<lambda>os. getSettingFilePath (OsName os)) (map snd PLATFORMS)) (\<lambda>settingsFiles.
     bind (mapM fileExists settingsFiles) (\<lambda>results.
     return (resultAt results 0 \<or> resultAt results 1 \<or> resultAt results 2 \<or> resultAt results 3)))"

text \<open>
  \<^verbatim>\<open>
  async function getDefaultSettingsFileContent() {
      const all = await getSettingsFileContent(PLATFORMS.all);
      if (all) { return all; }
      const settings = await getSettingsFileContent();
      if (settings) { return settings; }
      return {}
  }
  \<close>
\<close>

definition PLATFORMS_all :: os_tag where
  "PLATFORMS_all = (case map_of PLATFORMS ''all'' of Some name \<Rightarrow> OsName name | None \<Rightarrow> OsUndefined)"

definition getDefaultSettingsFileContent :: "json io" where
  "getDefaultSettingsFileContent =
     bind (getSettingsFileContent PLATFORMS_all) (\<lambda>all.
       if truthy all then return all
       else bind (getSettingsFileContent OsUndefined) (\<lambda>settings.
         if truthy settings then return settings
         else return (JObject [])))"

text \<open>
  \<^verbatim>\<open>createFileIfNotExists(filePath, content)\<close>: the whole body is inside \<^verbatim>\<open>try\<close>, and the
  \<^verbatim>\<open>catch\<close> only writes to the console, so it never throws. It calls \<^verbatim>\<open>fs.mkdir\<close>,
  \<^verbatim>\<open>fs.access\<close> and \<^verbatim>\<open>fs.writeFile\<close> of the callback interface without a callback; an
  error raised there is \<open>createError\<close>. The content written is given as the entry that
  reading it back yields.
\<close>

definition createFileIfNotExists :: "string \<Rightarrow> entry \<Rightarrow> unit io" where
  "createFileIfNotExists filePath content h =
     (case createError h of
        Some m \<Rightarrow> console_log (''Error while creating file: '' @ m) h
      | None \<Rightarrow>
          if files h filePath = None then
            console_log (''File created: '' @ filePath)
              (h\<lparr>files := (files h)(filePath \<mapsto> content)\<rparr>)
          else console_log (''File already exists: '' @ filePath) h)"

text \<open>
  \<^verbatim>\<open>fs.writeFile(filePath, JSON.stringify(settings, null, 4), 'utf8', callback)\<close> wrapped in a
  promise: rejected with the error, or resolved after the file holds the text, which
  parses back to \<open>settings\<close>.
\<close>

definition writeSettings :: "string \<Rightarrow> json \<Rightarrow> unit io" where
  "writeSettings filePath settings h =
     (case writeError h of
        Some m \<Rightarrow> (Throw (FsError m), h)
      | None \<Rightarrow> (Return (), h\<lparr>files := (files h)(filePath \<mapsto> Content settings)\<rparr>))"

text \<open>
  \<^verbatim>\<open>
  async function updateSettingsFile(newSettings) {
      const filePath = getSettingFilePath();
      if (!await fileExists(filePath)) {
          await createFileIfNotExists(filePath, '{}');
      }
      const defaultSettings = await getDefaultSettingsFileContent();
      const settings = deepMerge(defaultSettings, newSettings);
      return new Promise((resolve, reject) => { fs.writeFile(...) });
  }
  \<close>
\<close>

definition updateSettingsFile :: "json \<Rightarrow> unit io" where
  "updateSettingsFile newSettings =
     bind (getSettingFilePath OsUndefined) (\<lambda>filePath.
     bind (fileExists filePath) (\<lambda>found.
     bind (if \<not> found then createFileIfNotExists filePath (Content (JObject [])) else return ())
       (\<lambda>_.
     bind getDefaultSettingsFileContent (\<lambda>defaultSettings.
       let settings = deepMerge defaultSettings newSettings
       in writeSettings filePath settings))))"

text \<open>\<^verbatim>\<open>try { body } catch (error) { handler(error) }\<close>\<close>

definition try_catch :: "'a io \<Rightarrow> (exn \<Rightarrow> 'a io) \<Rightarrow> 'a io" where
  "try_catch body handler h =
     (case body h of (Return a, h') \<Rightarrow> (Return a, h') | (Throw e, h') \<Rightarrow> handler e h')"

text \<open>
  \<^verbatim>\<open>
  async function vsCodeUpdateSettingsFile() {
      if (!await isValid()) {
          vscode.window.showErrorMessage('No workspace folder opened.');
          return;
      }
      const workspaceFolders = vscode.workspace.workspaceFolders;
      if (!workspaceFolders) {
          vscode.window.showErrorMessage('No workspace folder opened.');
          return;
      }
      const os = getOsName();
      const osSettings = await getSettingsFileContent(os);
      try {
          await updateSettingsFile(osSettings);
          vscode.window.showInformationMessage(`Updated settings.json for ${os} operating system.`);
      } catch (error) {
          vscode.window.showErrorMessage(`Error updating settings.json: ${error.message}`);
      }
  }
  \<close>
  An array, even an empty one, is truthy: only an undefined \<^verbatim>\<open>workspaceFolders\<close> takes the
  second early return.
\<close>

definition vsCodeUpdateSettingsFile :: "unit io" where
  "vsCodeUpdateSettingsFile =
     bind isValid (\<lambda>valid.
       if \<not> valid then showErrorMessage ''No workspace folder opened.''
       else (\<lambda>h.
         if workspaceFolders h = None then showErrorMessage ''No workspace folder opened.'' h
         else
           bind getOsName (\<lambda>os.
           bind (getSettingsFileContent os) (\<lambda>osSettings.
             try_catch
               (bind (updateSettingsFile osSettings) (\<lambda>_.
                  showInformationMessage
                    (''Updated settings.json for '' @ os_text os @ '' operating system.'')))
               (\<lambda>error.
                  showErrorMessage (''Error updating settings.json: '' @ exn_message error))))
           h))"

section \<open>Example workspaces and heaps\<close>

text \<open>
  A host with one workspace folder \<^verbatim>\<open>/w\<close> on Linux, holding the given files, where
  writing succeeds and nothing has been shown yet.
\<close>

definition exampleHost :: "(string \<times> entry) list \<Rightarrow> host" where
  "exampleHost fs =
     \<lparr>workspaceFolders = Some [''/w''], platform = ''linux'', files = map_of fs,
      writeError = None, createError = None, notifications = [], console = []\<rparr>"

text \<open>The five settings files of a workspace folder that the extension may touch.\<close>

definition candidateFiles :: "string \<Rightarrow> string list" where
  "candidateFiles root =
     map (\<lambda>fileName. path_join [root, ''.vscode'', fileName])
       [''settings.json'', ''settings.all.json'', ''settings.windows.json'',
        ''settings.macos.json'', ''settings.linux.json'']"

text \<open>
  The heap after building \<^verbatim>\<open>{a:{x:1}}\<close> at address 0 (its inner object at 1) and
  \<^verbatim>\<open>{a:{y:2}}\<close> at address 2 (its inner object at 3).
\<close>

definition exampleHeap :: heap where
  "exampleHeap =
     [ObjectCell [(''a'', VRef 1)], ObjectCell [(''x'', VNumber 1)],
      ObjectCell [(''a'', VRef 3)], ObjectCell [(''y'', VNumber 2)]]"

section \<open>Properties of the property tables\<close>

lemma map_of_setProperty: "map_of (setProperty k v ps) = (map_of ps)(k \<mapsto> v)"
  by (induction ps) (auto simp: fun_eq_iff)

lemma keys_setProperty: "fst ` set (setProperty k v ps) = insert k (fst ` set ps)"
  by (induction ps) auto

lemma setProperty_fresh: "k \<notin> fst ` set ps \<Longrightarrow> setProperty k v ps = ps @ [(k, v)]"
  by (induction ps) auto

lemma assign_distinct:
  "distinct (map fst (acc @ ps)) \<Longrightarrow>
   foldl (\<lambda>out p. setProperty (fst p) (snd p) out) acc ps = acc @ ps"
proof (induction ps arbitrary: acc)
  case Nil
  then show ?case by simp
next
  case (Cons p ps)
  from Cons.prems have fresh: "fst p \<notin> fst ` set acc"
    by auto
  from Cons.prems have "distinct (map fst ((acc @ [p]) @ ps))"
    by simp
  then have "foldl (\<lambda>out p. setProperty (fst p) (snd p) out) (acc @ [p]) ps = (acc @ [p]) @ ps"
    by (rule Cons.IH)
  with fresh show ?case
    by (simp add: setProperty_fresh)
qed

text \<open>A write under any key but \<^verbatim>\<open>__proto__\<close> defines an own property and keeps the prototype.\<close>

lemma ordinarySet_other:
  "key \<noteq> ''__proto__'' \<Longrightarrow> ordinarySet key v (proto, props) = (proto, setProperty key v props)"
  by (simp add: ordinarySet.simps)

lemma foldl_ordinarySet_other:
  "''__proto__'' \<notin> fst ` set qs \<Longrightarrow>
   foldl (\<lambda>out p. ordinarySet (fst p) (snd p) out) (proto, props) qs =
     (proto, foldl (\<lambda>out p. setProperty (fst p) (snd p) out) props qs)"
proof (induction qs arbitrary: props)
  case Nil
  then show ?case by simp
next
  case (Cons q qs)
  from Cons.prems have q: "fst q \<noteq> ''__proto__''" and rest: "''__proto__'' \<notin> fst ` set qs"
    by auto
  from q have "ordinarySet (fst q) (snd q) (proto, props) = (proto, setProperty (fst q) (snd q) props)"
    by (rule ordinarySet_other)
  with Cons.IH [OF rest, of "setProperty (fst q) (snd q) props"] show ?case
    by (simp only: foldl_Cons)
qed

lemma Object_assign_other:
  "''__proto__'' \<notin> set (Object_keys from) \<Longrightarrow>
   Object_assign (proto, props) from =
     (proto, foldl (\<lambda>out p. setProperty (fst p) (snd p) out) props (ownProperties from))"
  by (simp add: Object_assign_def Object_keys_def foldl_ordinarySet_other)

lemma Object_assign_copy:
  "distinct (map fst ps) \<Longrightarrow> ''__proto__'' \<notin> fst ` set ps \<Longrightarrow>
   Object_assign (ObjectProto, []) (JObject ps) = (ObjectProto, ps)"
  using assign_distinct [of "[]" ps] by (simp add: Object_assign_other Object_keys_def)

lemma Object_assign_single: "Object_assign output (JObject [(key, v)]) = ordinarySet key v output"
  by (simp add: Object_assign_def)

lemma isObject_JObject: "isObject (JObject ps)"
  by (simp add: isObject_def)

lemma isObject_iff: "isObject v \<longleftrightarrow> (\<exists>ps. v = JObject ps) \<or> v = JObjectPrototype"
  by (cases v) (simp_all add: isObject_def)

lemma property_smaller: "map_of ps key = Some jsv \<Longrightarrow> size jsv < size (JObject ps)"
proof -
  assume "map_of ps key = Some jsv"
  then have "(key, jsv) \<in> set ps"
    by (rule map_of_SomeD)
  then have "size jsv < Suc (size_list (size_prod (\<lambda>_. 0) size) ps)"
    by (induction ps) auto
  then show ?thesis by simp
qed

text \<open>The name of an index consists of digits, so it is not \<^verbatim>\<open>__proto__\<close>.\<close>

lemma indexName_digits: "c \<in> set (indexName n) \<Longrightarrow> (of_char c :: nat) < 58"
proof (induction n rule: indexName.induct)
  case (1 n)
  show ?case
  proof (cases "n < 10")
    case True
    with "1.prems" show ?thesis
      by (subst (asm) indexName.simps) simp
  next
    case False
    have "n mod 10 < 10" by simp
    with False "1.prems" "1.IH" show ?thesis
      by (subst (asm) indexName.simps) auto
  qed
qed

lemma indexName_not_proto: "indexName n \<noteq> ''__proto__''"
proof
  assume "indexName n = ''__proto__''"
  then have "CHR ''_'' \<in> set (indexName n)"
    by simp
  then have "(of_char (CHR ''_'') :: nat) < 58"
    by (rule indexName_digits)
  then show False by simp
qed

lemma proto_not_own_index:
  "\<not> isObject v \<Longrightarrow> ''__proto__'' \<notin> set (Object_keys v)"
  by (cases v) (auto simp: Object_keys_def isObject_def indexName_not_proto [symmetric])

section \<open>Properties of the merge\<close>

lemma foldl_keeps_prototype:
  "(\<And>k props. k \<in> set ks \<Longrightarrow> f (proto, props) k = (proto, g props k)) \<Longrightarrow>
   foldl f (proto, props) ks = (proto, foldl g props ks)"
  by (induction ks arbitrary: props) simp_all

text \<open>
  On two objects without an own \<^verbatim>\<open>__proto__\<close> key the loop sets, for every key of the
  source, either the source's value or, when the source's value is an object and the
  target has the key, own or inherited, the merge of the two.
\<close>

lemma deepMerge_objects:
  assumes t: "''__proto__'' \<notin> fst ` set tps" and s: "''__proto__'' \<notin> fst ` set sps"
  shows "deepMerge (JObject tps) (JObject sps) =
     JObject (foldl (\<lambda>output key.
          case map_of sps key of
            None \<Rightarrow> output
          | Some sv \<Rightarrow>
              setProperty key
                (if isObject sv then
                   (case getProperty (JObject tps) key of None \<Rightarrow> sv | Some tv \<Rightarrow> deepMerge tv sv)
                 else sv) output)
        (foldl (\<lambda>out p. setProperty (fst p) (snd p) out) [] tps) (map fst sps))"
proof -
  let ?f = "\<lambda>output key.
          case getProperty (JObject sps) key of
            None \<Rightarrow> output
          | Some sv \<Rightarrow>
              if isObject sv then
                (case getProperty (JObject tps) key of
                   None \<Rightarrow> Object_assign output (JObject [(key, sv)])
                 | Some tv \<Rightarrow> ordinarySet key (deepMerge tv sv) output)
              else Object_assign output (JObject [(key, sv)])"
  let ?g = "\<lambda>output key.
          case map_of sps key of
            None \<Rightarrow> output
          | Some sv \<Rightarrow>
              setProperty key
                (if isObject sv then
                   (case getProperty (JObject tps) key of None \<Rightarrow> sv | Some tv \<Rightarrow> deepMerge tv sv)
                 else sv) output"
  let ?copy = "foldl (\<lambda>out p. setProperty (fst p) (snd p) out) [] tps"
  have copy: "Object_assign (ObjectProto, []) (JObject tps) = (ObjectProto, ?copy)"
    using t by (simp add: Object_assign_other Object_keys_def)
  have step: "?f (ObjectProto, props) k = (ObjectProto, ?g props k)"
    if "k \<in> set (map fst sps)" for k props
  proof -
    from that have mem: "k \<in> fst ` set sps" by simp
    with s have k: "k \<noteq> ''__proto__''" by blast
    from mem have "map_of sps k \<noteq> None"
      by (simp add: map_of_eq_None_iff)
    then obtain sv where sv: "map_of sps k = Some sv" by blast
    then have get: "getProperty (JObject sps) k = Some sv"
      by (simp add: getProperty_def)
    show ?thesis
      by (cases "getProperty (JObject tps) k")
        (simp_all add: get sv Object_assign_single ordinarySet_other [OF k])
  qed
  have "foldl ?f (ObjectProto, ?copy) (map fst sps) = (ObjectProto, foldl ?g ?copy (map fst sps))"
    using step by (rule foldl_keeps_prototype)
  then show ?thesis
    by (subst deepMerge.simps)
      (simp only: copy Let_def isObject_JObject Object_keys_def ownProperties.simps
        simp_thms if_True snd_conv)
qed

lemma deepMerge_not_objects:
  "\<not> (isObject target \<and> isObject source) \<Longrightarrow>
   deepMerge target source = JObject (snd (Object_assign (ObjectProto, []) target))"
  by (subst deepMerge.simps) (auto simp: Let_def)

lemma map_of_mergeLoop:
  "map_of (foldl (\<lambda>output key.
        case m key of None \<Rightarrow> output | Some sv \<Rightarrow> setProperty key (f key sv) output) out ks) k =
     (if k \<in> set ks then (case m k of None \<Rightarrow> map_of out k | Some sv \<Rightarrow> Some (f k sv))
      else map_of out k)"
  by (induction ks arbitrary: out) (auto simp: map_of_setProperty split: option.splits)

lemma keys_mergeLoop:
  "fst ` set (foldl (\<lambda>output key.
        case m key of None \<Rightarrow> output | Some sv \<Rightarrow> setProperty key (f key sv) output) out ks) =
     fst ` set out \<union> {k \<in> set ks. m k \<noteq> None}"
proof (induction ks arbitrary: out)
  case Nil
  then show ?case by simp
next
  case (Cons k ks)
  show ?case
    by (cases "m k") (auto simp: Cons.IH keys_setProperty)
qed

text \<open>
  The own property that the merge of two such objects holds at a key, by the cases of the
  loop body. \<open>getProperty\<close> on the target finds inherited properties too.
\<close>

lemma deepMerge_getProperty:
  assumes "distinct (map fst tps)"
    and "''__proto__'' \<notin> fst ` set tps" and "''__proto__'' \<notin> fst ` set sps"
  shows "map_of (ownProperties (deepMerge (JObject tps) (JObject sps))) key =
     (case map_of sps key of
        None \<Rightarrow> map_of tps key
      | Some sv \<Rightarrow>
          Some (if isObject sv then
                  (case getProperty (JObject tps) key of None \<Rightarrow> sv | Some tv \<Rightarrow> deepMerge tv sv)
                else sv))"
proof -
  have "key \<in> fst ` set sps" if "map_of sps key = Some sv" for sv
    using that by (metis map_of_SomeD fst_conv image_eqI)
  moreover have "map_of sps key = None" if "key \<notin> fst ` set sps"
    using that by (simp add: map_of_eq_None_iff)
  moreover have "foldl (\<lambda>out p. setProperty (fst p) (snd p) out) [] tps = tps"
    using assign_distinct [of "[]" tps] assms(1) by simp
  ultimately show ?thesis
    using assms(2,3)
    by (auto simp: deepMerge_objects map_of_mergeLoop split: option.splits)
qed

text \<open>The merge of two such objects has the keys of both.\<close>

lemma deepMerge_keys:
  assumes "distinct (map fst tps)"
    and "''__proto__'' \<notin> fst ` set tps" and "''__proto__'' \<notin> fst ` set sps"
  shows "set (Object_keys (deepMerge (JObject tps) (JObject sps))) =
     fst ` set tps \<union> fst ` set sps"
proof -
  have "{k \<in> fst ` set sps. map_of sps k \<noteq> None} = fst ` set sps"
    by (auto simp: map_of_eq_None_iff)
  moreover have "foldl (\<lambda>out p. setProperty (fst p) (snd p) out) [] tps = tps"
    using assign_distinct [of "[]" tps] assms(1) by simp
  ultimately show ?thesis
    using assms(2,3) by (simp add: deepMerge_objects Object_keys_def keys_mergeLoop)
qed

text \<open>
  Where the source's value is an object and the target's value under the same key, own or
  inherited, is not, the recursive call returns the copy of the target's value made by
  \<^verbatim>\<open>Object.assign({}, target)\<close>, and the source's value is dropped.
\<close>

lemma deepMerge_object_over_other:
  assumes "distinct (map fst tps)"
    and "''__proto__'' \<notin> fst ` set tps" and "''__proto__'' \<notin> fst ` set sps"
    and "map_of sps key = Some sv" and "isObject sv"
    and "getProperty (JObject tps) key = Some tv" and "\<not> isObject tv"
  shows "map_of (ownProperties (deepMerge (JObject tps) (JObject sps))) key =
     Some (JObject (snd (Object_assign (ObjectProto, []) tv)))"
  using assms by (simp add: deepMerge_getProperty deepMerge_not_objects)

text \<open>
  For values whose keys name no inherited property, \<^verbatim>\<open>deepMerge\<close> on JSON values is the
  loop over own properties that the store runs.
\<close>

lemma plainKeys_property:
  assumes "isObject j" and "plainKeys j" and "map_of (ownProperties j) key = Some v"
  shows "plainKeys v \<and> key \<notin> set objectPrototypeNames"
proof -
  from assms(1,3) obtain ps where ps: "j = JObject ps"
    by (auto simp: isObject_iff)
  with assms(3) have "(key, v) \<in> set ps"
    by (simp add: map_of_SomeD)
  with assms(2) ps show ?thesis
    by (auto simp: list_all_iff)
qed

lemma own_property_smaller:
  "isObject js \<Longrightarrow> map_of (ownProperties js) key = Some jsv \<Longrightarrow> size jsv < size js"
  using property_smaller [of _ key jsv] by (auto simp: isObject_iff simp del: json.size)

lemma plainKeys_no_proto: "plainKeys j \<Longrightarrow> ''__proto__'' \<notin> set (Object_keys j)"
proof (cases "isObject j")
  case True
  assume plain: "plainKeys j"
  have name: "''__proto__'' \<in> set objectPrototypeNames"
    by (simp add: objectPrototypeNames_def)
  show ?thesis
  proof (cases j)
    case (JObject ps)
    with plain have all: "\<forall>p \<in> set ps. fst p \<notin> set objectPrototypeNames"
      by (simp add: list_all_iff)
    then have "k \<notin> set objectPrototypeNames" if "k \<in> fst ` set ps" for k
      using that by force
    from this [of "''__proto__''"] name have "''__proto__'' \<notin> fst ` set ps"
      by (intro notI) simp
    with JObject show ?thesis
      by (simp add: Object_keys_def)
  qed (use True in \<open>simp_all add: Object_keys_def isObject_def\<close>)
next
  case False
  then show ?thesis
    by (rule proto_not_own_index)
qed

lemma deepMerge_not_objects_plain:
  assumes "plainKeys jt" and "\<not> (isObject jt \<and> isObject js)"
  shows "deepMerge jt js =
     JObject (foldl (\<lambda>outp p. setProperty (fst p) (snd p) outp) [] (ownProperties jt))"
  using assms by (simp add: deepMerge_not_objects Object_assign_other plainKeys_no_proto)

lemma deepMerge_plain:
  assumes "plainKeys (JObject tps)" and "plainKeys (JObject sps)"
  shows "deepMerge (JObject tps) (JObject sps) =
     JObject (foldl (\<lambda>outp key.
          case map_of sps key of
            None \<Rightarrow> outp
          | Some sv \<Rightarrow>
              if isObject sv then
                (case map_of tps key of
                   None \<Rightarrow> setProperty key sv outp
                 | Some tv \<Rightarrow> setProperty key (deepMerge tv sv) outp)
              else setProperty key sv outp)
        (foldl (\<lambda>outp p. setProperty (fst p) (snd p) outp) [] tps) (map fst sps))"
proof -
  have t: "''__proto__'' \<notin> fst ` set tps" and s: "''__proto__'' \<notin> fst ` set sps"
    using plainKeys_no_proto [OF assms(1)] plainKeys_no_proto [OF assms(2)]
    by (simp_all add: Object_keys_def)
  have own: "getProperty (JObject tps) key = map_of tps key" if "key \<in> set (map fst sps)" for key
  proof -
    from that obtain sv where "map_of sps key = Some sv"
      by (metis list.set_map map_of_eq_None_iff not_None_eq)
    with assms(2) have "key \<notin> set objectPrototypeNames"
      using plainKeys_property [of "JObject sps" key sv] by (simp add: isObject_JObject)
    moreover from this have "key \<noteq> ''__proto__''"
      by (auto simp: objectPrototypeNames_def)
    ultimately show ?thesis
      by (simp add: getProperty_def split: option.splits)
  qed
  show ?thesis
    unfolding deepMerge_objects [OF t s]
    by (rule arg_cong [where f = JObject], rule foldl_cong)
      (auto simp: own split: option.splits)
qed

text \<open>
  C9: merging \<^verbatim>\<open>{a:{x:1}}\<close> with \<^verbatim>\<open>{a:{y:2}}\<close> yields \<^verbatim>\<open>{a:{x:1,y:2}}\<close>: the two objects under
  the shared key are merged recursively.
\<close>

theorem deepMerge_nested_example:
  "deepMerge (JObject [(''a'', JObject [(''x'', JNumber 1)])])
             (JObject [(''a'', JObject [(''y'', JNumber 2)])])
   = JObject [(''a'', JObject [(''x'', JNumber 1), (''y'', JNumber 2)])]"
  by (simp add: deepMerge.simps isObject_def Object_assign_def Object_keys_def getProperty_def
      ordinarySet.simps)

text \<open>
  C8 as amended: merging an empty overlay into a base mapping that has no own property
  named \<^verbatim>\<open>__proto__\<close> yields the base: the same properties with the same values, in the
  same order.
\<close>

theorem deepMerge_empty_overlay:
  "distinct (map fst ps) \<Longrightarrow> ''__proto__'' \<notin> fst ` set ps \<Longrightarrow>
   deepMerge (JObject ps) (JObject []) = JObject ps"
  by (simp add: deepMerge.simps Object_assign_copy isObject_JObject Object_keys_def)

theorem deepMerge_empty_overlay_witness:
  "distinct (map fst [(''editor.tabSize'', JNumber 4), (''files.exclude'', JObject [(''**/.git'', JBool True)])])
   \<and> ''__proto__'' \<notin> fst ` set [(''editor.tabSize'', JNumber 4), (''files.exclude'', JObject [(''**/.git'', JBool True)])]
   \<and> deepMerge
        (JObject [(''editor.tabSize'', JNumber 4), (''files.exclude'', JObject [(''**/.git'', JBool True)])])
        (JObject [])
     = JObject [(''editor.tabSize'', JNumber 4), (''files.exclude'', JObject [(''**/.git'', JBool True)])]"
  using deepMerge_empty_overlay
    [of "[(''editor.tabSize'', JNumber 4), (''files.exclude'', JObject [(''**/.git'', JBool True)])]"]
  by simp

text \<open>
  C8 as stated, for every base mapping, fails: \<^verbatim>\<open>Object.assign({}, target)\<close> writes each
  property of the base to the new object, and the write to an own \<^verbatim>\<open>__proto__\<close> of the base
  runs the inherited setter instead of defining a property. Merging the empty overlay into
  the mapping parsed from \<^verbatim>\<open>{"__proto__": 1, "a": 2}\<close> yields \<^verbatim>\<open>{"a": 2}\<close>.
\<close>

theorem deepMerge_empty_overlay_drops_proto:
  "deepMerge (JObject [(''__proto__'', JNumber 1), (''a'', JNumber 2)]) (JObject [])
     = JObject [(''a'', JNumber 2)]
   \<and> deepMerge (JObject [(''__proto__'', JNumber 1), (''a'', JNumber 2)]) (JObject [])
     \<noteq> JObject [(''__proto__'', JNumber 1), (''a'', JNumber 2)]"
  by (simp add: deepMerge.simps isObject_def Object_assign_def Object_keys_def getProperty_def
      ordinarySet.simps)

text \<open>
  C1: the merge of two mappings has the keys of both, merges recursively where both values
  are objects, and elsewhere holds the overlay's value. The last part fails where the
  overlay's value is an object and the base's value is not: merging \<^verbatim>\<open>{a:1}\<close> with
  \<^verbatim>\<open>{a:{x:1}}\<close> yields \<^verbatim>\<open>{a:{}}\<close>, not the overlay's \<^verbatim>\<open>{a:{x:1}}\<close>.
\<close>

theorem deepMerge_object_over_number:
  "deepMerge (JObject [(''a'', JNumber 1)]) (JObject [(''a'', JObject [(''x'', JNumber 1)])])
     = JObject [(''a'', JObject [])]
   \<and> getProperty
        (deepMerge (JObject [(''a'', JNumber 1)]) (JObject [(''a'', JObject [(''x'', JNumber 1)])]))
        ''a''
     \<noteq> getProperty (JObject [(''a'', JObject [(''x'', JNumber 1)])]) ''a''"
  by (simp add: deepMerge.simps isObject_def Object_assign_def Object_keys_def getProperty_def
      ordinarySet.simps)

section \<open>Properties of the merge on the heap\<close>

text \<open>
  The helpers write to the cell at \<open>out\<close> only, or append: a heap that the current one
  extends, and that ends at or below \<open>out\<close>, stays a prefix.
\<close>

lemma cellAt_prefix: "prefix h0 h \<Longrightarrow> cellAt h0 a = Some c \<Longrightarrow> cellAt h a = Some c"
  by (auto simp: cellAt_def prefix_def nth_append split: if_splits)

lemma isObjectH_iff: "isObjectH h v \<longleftrightarrow> (\<exists>a ps. v = VRef a \<and> cellAt h a = Some (ObjectCell ps))"
  by (cases v) (auto split: option.splits cell.splits)

lemma isObjectH_prefix: "prefix h0 h \<Longrightarrow> isObjectH h0 v \<Longrightarrow> isObjectH h v"
  by (auto simp: isObjectH_iff dest: cellAt_prefix)

lemma length_setPropertyH: "length (setPropertyH h out key v) = length h"
  by (simp add: setPropertyH_def split: option.splits cell.splits)

lemma prefix_list_update:
  "prefix h0 h \<Longrightarrow> length h0 \<le> a \<Longrightarrow> prefix h0 (h[a := c])"
  by (auto simp: prefix_def list_update_append)

lemma prefix_setPropertyH:
  "prefix h0 h \<Longrightarrow> length h0 \<le> out \<Longrightarrow> prefix h0 (setPropertyH h out key v)"
  by (simp add: setPropertyH_def prefix_list_update split: option.splits cell.splits)

lemma isObjectH_setPropertyH:
  "isObjectH h (VRef out) \<Longrightarrow> isObjectH (setPropertyH h out key v) (VRef out)"
  by (auto simp: isObjectH_iff setPropertyH_def cellAt_def split: if_splits)

declare isObjectH.simps [simp del]

lemma foldl_setPropertyH:
  "length (foldl (\<lambda>h' p. setPropertyH h' out (fst p) (snd p)) h ps) = length h
   \<and> (prefix h0 h \<and> length h0 \<le> out \<longrightarrow>
        prefix h0 (foldl (\<lambda>h' p. setPropertyH h' out (fst p) (snd p)) h ps))
   \<and> (isObjectH h (VRef out) \<longrightarrow>
        isObjectH (foldl (\<lambda>h' p. setPropertyH h' out (fst p) (snd p)) h ps) (VRef out))"
  by (induction ps arbitrary: h)
    (simp_all add: length_setPropertyH prefix_setPropertyH isObjectH_setPropertyH)

lemma length_Object_assignH: "length (Object_assignH h out from) = length h"
  by (simp add: Object_assignH_def foldl_setPropertyH)

lemma prefix_Object_assignH:
  "prefix h0 h \<Longrightarrow> length h0 \<le> out \<Longrightarrow> prefix h0 (Object_assignH h out from)"
  by (simp add: Object_assignH_def foldl_setPropertyH)

lemma isObjectH_Object_assignH:
  "isObjectH h (VRef out) \<Longrightarrow> isObjectH (Object_assignH h out from) (VRef out)"
  by (simp add: Object_assignH_def foldl_setPropertyH)

lemma length_assignLiteralH: "length (assignLiteralH h out key v) = Suc (length h)"
  by (simp add: assignLiteralH_def Let_def length_Object_assignH)

lemma prefix_assignLiteralH:
  "prefix h0 h \<Longrightarrow> length h0 \<le> out \<Longrightarrow> prefix h0 (assignLiteralH h out key v)"
  by (simp add: assignLiteralH_def Let_def prefix_Object_assignH)

lemma isObjectH_assignLiteralH:
  "isObjectH h (VRef out) \<Longrightarrow> isObjectH (assignLiteralH h out key v) (VRef out)"
  by (simp add: assignLiteralH_def Let_def isObjectH_Object_assignH isObjectH_prefix [of h])

lemma isObjectH_fresh: "isObjectH (h @ [ObjectCell ps]) (VRef (length h))"
  by (simp add: isObjectH_iff cellAt_def)

text \<open>
  A call that returns has allocated its result at the end of the heap it was given and
  left that heap as a prefix of the new one; the loop keeps every prefix that ends at or
  below the object it fills.
\<close>

lemma frame_chain:
  assumes "length h \<le> length hm"
    and "\<And>h0. prefix h0 h \<Longrightarrow> length h0 \<le> out \<Longrightarrow> prefix h0 hm"
    and "isObjectH h (VRef out) \<Longrightarrow> isObjectH hm (VRef out)"
    and "length hm \<le> length h'
      \<and> (\<forall>h0. prefix h0 hm \<and> length h0 \<le> out \<longrightarrow> prefix h0 h')
      \<and> (isObjectH hm (VRef out) \<longrightarrow> isObjectH h' (VRef out))"
  shows "length h \<le> length h'
      \<and> (\<forall>h0. prefix h0 h \<and> length h0 \<le> out \<longrightarrow> prefix h0 h')
      \<and> (isObjectH h (VRef out) \<longrightarrow> isObjectH h' (VRef out))"
  using assms by (meson order_trans)

lemma frame_both:
  "deepMergeH n h target source = Some (r, h') \<Longrightarrow>
     r = VRef (length h) \<and> prefix h h' \<and> length h < length h' \<and> isObjectH h' r"
  "forEachH n h target source out keys = Some h'' \<Longrightarrow>
     length h \<le> length h''
     \<and> (\<forall>h0. prefix h0 h \<and> length h0 \<le> out \<longrightarrow> prefix h0 h'')
     \<and> (isObjectH h (VRef out) \<longrightarrow> isObjectH h'' (VRef out))"
proof (induction n h target source and n h target source out keys arbitrary: r h' and h''
    rule: deepMergeH_forEachH.induct)
  case (1 h target source)
  then show ?case by simp
next
  case (2 n h target source)
  let ?h2 = "Object_assignH (h @ [ObjectCell []]) (length h) target"
  have len: "length ?h2 = Suc (length h)"
    by (simp add: length_Object_assignH)
  have pre: "prefix h ?h2"
    by (rule prefix_Object_assignH) simp_all
  have obj: "isObjectH ?h2 (VRef (length h))"
    by (rule isObjectH_Object_assignH) (rule isObjectH_fresh)
  show ?case
  proof (cases "isObjectH ?h2 target \<and> isObjectH ?h2 source")
    case False
    with "2.prems" have "r = VRef (length h)" "h' = ?h2"
      by (auto simp: Let_def)
    with len pre obj show ?thesis by simp
  next
    case True
    with "2.prems" have r: "r = VRef (length h)"
      and loop: "forEachH n ?h2 target source (length h) (Object_keysH ?h2 source) = Some h'"
      by (auto simp: Let_def split: option.splits)
    from "2.IH" [OF refl refl refl True loop]
    have "length ?h2 \<le> length h'"
      and "prefix h ?h2 \<and> length h \<le> length h \<longrightarrow> prefix h h'"
      and "isObjectH ?h2 (VRef (length h)) \<longrightarrow> isObjectH h' (VRef (length h))"
      by blast+
    with r len pre obj show ?thesis by simp
  qed
next
  case (3 n h target source out)
  then show ?case by simp
next
  case (4 n h target source out key keys)
  show ?case
  proof (cases "getPropertyH h source key")
    case None
    with "4.prems" "4.IH"(1) show ?thesis by simp
  next
    case (Some sv)
    let ?lit = "assignLiteralH h out key sv"
    have literal: ?thesis if rest: "length ?lit \<le> length h''
       \<and> (\<forall>h0. prefix h0 ?lit \<and> length h0 \<le> out \<longrightarrow> prefix h0 h'')
       \<and> (isObjectH ?lit (VRef out) \<longrightarrow> isObjectH h'' (VRef out))"
      by (rule frame_chain [OF _ _ _ rest])
        (simp_all add: length_assignLiteralH prefix_assignLiteralH isObjectH_assignLiteralH)
    show ?thesis
    proof (cases "isObjectH h sv")
      case False
      with Some "4.prems" have "forEachH n ?lit target source out keys = Some h''"
        by simp
      from "4.IH"(5) [OF Some False this] show ?thesis
        by (rule literal)
    next
      case True
      show ?thesis
      proof (cases "getPropertyH h target key")
        case None
        with Some True "4.prems" have "forEachH n ?lit target source out keys = Some h''"
          by simp
        from "4.IH"(2) [OF Some True None this] show ?thesis
          by (rule literal)
      next
        case tv: (Some tv)
        with Some True "4.prems" obtain merged h1
          where call: "deepMergeH n h tv sv = Some (merged, h1)"
            and rest: "forEachH n (setPropertyH h1 out key merged) target source out keys = Some h''"
          by (auto split: option.splits)
        from "4.IH"(3) [OF Some True tv call]
        have pre: "prefix h h1" and len: "length h < length h1"
          by simp_all
        show ?thesis
        proof (rule frame_chain [OF _ _ _ "4.IH"(4) [OF Some True tv call refl rest]])
          show "length h \<le> length (setPropertyH h1 out key merged)"
            using len by (simp add: length_setPropertyH)
          show "prefix h0 (setPropertyH h1 out key merged)"
            if "prefix h0 h" and "length h0 \<le> out" for h0
            using that pre by (meson prefix_setPropertyH prefix_order.trans)
          show "isObjectH (setPropertyH h1 out key merged) (VRef out)" if "isObjectH h (VRef out)"
            using that pre by (simp add: isObjectH_setPropertyH isObjectH_prefix)
        qed
      qed
    qed
  qed
qed

text \<open>
  With a source of finite nesting the stack suffices: the call returns. The source is read
  in the heap as it was before the call, which the loop leaves intact.
\<close>

lemma nestedWithin_properties:
  assumes "nestedWithin n h0 source" and "prefix h0 h" and "isObjectH h source"
  shows "\<exists>m. n = Suc m \<and> (\<forall>key sv. getPropertyH h source key = Some sv \<longrightarrow> nestedWithin m h0 sv)"
proof -
  from assms(3) obtain a ps where a: "source = VRef a" and cell: "cellAt h a = Some (ObjectCell ps)"
    by (auto simp: isObjectH_iff)
  from assms(1) a obtain c where c: "cellAt h0 a = Some c"
    by (cases n; cases "cellAt h0 a") auto
  with assms(2) cell have cell0: "cellAt h0 a = Some (ObjectCell ps)"
    by (auto dest: cellAt_prefix)
  with assms(1) a obtain m where m: "n = Suc m" and all: "list_all (\<lambda>p. nestedWithin m h0 (snd p)) ps"
    by (cases n) auto
  have "nestedWithin m h0 sv" if "getPropertyH h source key = Some sv" for key sv
  proof -
    from that a cell have "(key, sv) \<in> set ps"
      by (auto simp: getPropertyH_def dest: map_of_SomeD)
    with all show ?thesis
      by (auto simp: list_all_iff)
  qed
  with m show ?thesis by blast
qed

lemma forEachH_total:
  assumes call: "\<And>h t s. prefix h0 h \<Longrightarrow> nestedWithin m h0 s \<Longrightarrow> deepMergeH (Suc m) h t s \<noteq> None"
    and props: "\<And>h key sv. prefix h0 h \<Longrightarrow> getPropertyH h source key = Some sv \<Longrightarrow> nestedWithin m h0 sv"
  shows "prefix h0 h \<Longrightarrow> length h0 \<le> out \<Longrightarrow>
     forEachH (Suc m) h target source out keys \<noteq> None"
proof (induction keys arbitrary: h)
  case Nil
  then show ?case by simp
next
  case (Cons key keys)
  show ?case
  proof (cases "getPropertyH h source key")
    case None
    with Cons show ?thesis by simp
  next
    case (Some sv)
    have literal: "forEachH (Suc m) (assignLiteralH h out key sv) target source out keys \<noteq> None"
      using Cons.prems by (intro Cons.IH prefix_assignLiteralH)
    show ?thesis
    proof (cases "isObjectH h sv \<and> getPropertyH h target key \<noteq> None")
      case False
      with Some literal show ?thesis
        by (auto split: option.splits)
    next
      case True
      then obtain tv where tv: "getPropertyH h target key = Some tv" and obj: "isObjectH h sv"
        by auto
      from props [OF Cons.prems(1) Some] have "nestedWithin m h0 sv" .
      with call [OF Cons.prems(1)] obtain merged h1
        where run: "deepMergeH (Suc m) h tv sv = Some (merged, h1)"
        by (metis not_None_eq surj_pair)
      from frame_both(1) [OF run] have "prefix h h1" by simp
      with Cons.prems have "prefix h0 (setPropertyH h1 out key merged)"
        by (meson prefix_setPropertyH prefix_order.trans)
      then have "forEachH (Suc m) (setPropertyH h1 out key merged) target source out keys \<noteq> None"
        using Cons.prems(2) by (rule Cons.IH)
      with Some tv obj run show ?thesis by simp
    qed
  qed
qed

lemma deepMergeH_total:
  "nestedWithin n h0 source \<Longrightarrow> prefix h0 h \<Longrightarrow> deepMergeH (Suc n) h target source \<noteq> None"
proof (induction n arbitrary: h target source)
  case 0
  let ?h2 = "Object_assignH (h @ [ObjectCell []]) (length h) target"
  have "prefix h0 ?h2"
    using "0.prems"(2) by (intro prefix_Object_assignH) (simp_all add: prefix_length_le)
  with "0.prems"(1) have "\<not> isObjectH ?h2 source"
    using nestedWithin_properties by blast
  then show ?case
    by (simp add: Let_def)
next
  case (Suc m)
  let ?h2 = "Object_assignH (h @ [ObjectCell []]) (length h) target"
  have pre: "prefix h0 ?h2"
    using Suc.prems(2) by (intro prefix_Object_assignH) (simp_all add: prefix_length_le)
  show ?case
  proof (cases "isObjectH ?h2 target \<and> isObjectH ?h2 source")
    case False
    then show ?thesis
      by (auto simp: Let_def)
  next
    case True
    have props: "nestedWithin m h0 sv"
      if "prefix h0 h'" and "getPropertyH h' source key = Some sv" for h' key sv
    proof -
      from True have "isObjectH ?h2 source" by simp
      then obtain a ps where a: "source = VRef a" and "cellAt ?h2 a = Some (ObjectCell ps)"
        by (auto simp: isObjectH_iff)
      from Suc.prems(1) a obtain c where c: "cellAt h0 a = Some c"
        by (cases "cellAt h0 a") auto
      with pre \<open>cellAt ?h2 a = Some (ObjectCell ps)\<close> have "cellAt h0 a = Some (ObjectCell ps)"
        by (auto dest: cellAt_prefix)
      with that(1) a have "isObjectH h' source"
        by (auto simp: isObjectH_iff dest: cellAt_prefix)
      from nestedWithin_properties [OF Suc.prems(1) that(1) this] that(2)
      show ?thesis by auto
    qed
    have "forEachH (Suc m) ?h2 target source (length h) (Object_keysH ?h2 source) \<noteq> None"
      using Suc.IH props pre Suc.prems(2)
      by (intro forEachH_total) (auto simp: prefix_length_le)
    with True show ?thesis
      by (auto simp: Let_def)
  qed
qed

subsection \<open>The merge on the heap computes the merge on parsed values\<close>

lemma represents_JObject:
  "represents A h v (JObject ps) \<longleftrightarrow>
     (\<exists>a vps. v = VRef a \<and> A a \<and> cellAt h a = Some (ObjectCell vps) \<and> representsAll A h vps ps)"
  by (auto simp: representsAll_def split: val.splits option.splits cell.splits)

lemma represents_JArray:
  "represents A h v (JArray xs) \<longleftrightarrow>
     (\<exists>a vs. v = VRef a \<and> A a \<and> cellAt h a = Some (ArrayCell vs) \<and> list_all2 (represents A h) vs xs)"
  by (auto split: val.splits option.splits cell.splits)

declare represents.simps(7,8) [simp del]

text \<open>
  A value is read the same in any heap that keeps the cells read, under any wider bound
  on the addresses.
\<close>

lemma represents_transfer:
  "represents A h v j \<Longrightarrow>
   \<forall>a c. A a \<and> cellAt h a = Some c \<longrightarrow> B a \<and> cellAt h' a = Some c \<Longrightarrow>
   represents B h' v j"
proof (induction A h v j rule: represents.induct)
  case (7 A h v xs)
  from "7.prems"(1) obtain a vs where v: "v = VRef a" and a: "A a"
    and cell: "cellAt h a = Some (ArrayCell vs)" and all: "list_all2 (represents A h) vs xs"
    by (auto simp: represents_JArray)
  have "list_all2 (represents B h') vs xs"
    using all
  proof (rule list.rel_mono_strong)
    fix z x assume "z \<in> set vs" "x \<in> set xs"
    moreover assume "represents A h z x"
    ultimately show "represents B h' z x"
      using "7.IH" [OF v cell refl] "7.prems"(2) by blast
  qed
  with "7.prems"(2) a cell v show ?case
    by (auto simp: represents_JArray)
next
  case (8 A h v ps)
  from "8.prems"(1) obtain a vps where v: "v = VRef a" and a: "A a"
    and cell: "cellAt h a = Some (ObjectCell vps)" and all: "representsAll A h vps ps"
    by (auto simp: represents_JObject)
  have "representsAll B h' vps ps"
    unfolding representsAll_def
    using all [unfolded representsAll_def]
  proof (rule list.rel_mono_strong)
    fix z x assume "z \<in> set vps" "x \<in> set ps"
    moreover assume "fst z = fst x \<and> represents A h (snd z) (snd x)"
    ultimately show "fst z = fst x \<and> represents B h' (snd z) (snd x)"
      using "8.IH" [OF v cell refl] "8.prems"(2) by blast
  qed
  with "8.prems"(2) a cell v show ?case
    by (auto simp: represents_JObject)
qed simp_all

lemma representsAll_transfer:
  "representsAll A h vps ps \<Longrightarrow>
   \<forall>a c. A a \<and> cellAt h a = Some c \<longrightarrow> B a \<and> cellAt h' a = Some c \<Longrightarrow>
   representsAll B h' vps ps"
  unfolding representsAll_def
  by (erule list_all2_mono) (metis represents_transfer)

lemma representsAll_setProperty:
  "representsAll A h vps ps \<Longrightarrow> represents A h v j \<Longrightarrow>
   representsAll A h (setProperty k v vps) (setProperty k j ps)"
  unfolding representsAll_def
  by (induction vps ps rule: list_all2_induct) auto

lemma representsAll_keys: "representsAll A h vps ps \<Longrightarrow> map fst vps = map fst ps"
  unfolding representsAll_def
  by (induction vps ps rule: list_all2_induct) auto

lemma representsAll_map_of:
  "representsAll A h vps ps \<Longrightarrow>
   (map_of vps k = None \<and> map_of ps k = None)
   \<or> (\<exists>v j. map_of vps k = Some v \<and> map_of ps k = Some j \<and> represents A h v j)"
  unfolding representsAll_def
  by (induction vps ps rule: list_all2_induct) auto

lemma representsAll_foldl:
  "representsAll A h vps ps \<Longrightarrow> representsAll A h qs rs \<Longrightarrow>
   representsAll A h (foldl (\<lambda>out p. setProperty (fst p) (snd p) out) vps qs)
     (foldl (\<lambda>out p. setProperty (fst p) (snd p) out) ps rs)"
proof (induction qs arbitrary: vps ps rs)
  case Nil
  then show ?case by (simp add: representsAll_def)
next
  case (Cons q qs)
  from Cons.prems(2) obtain r rs' where rs: "rs = r # rs'" and q: "fst q = fst r"
    "represents A h (snd q) (snd r)" and rest: "representsAll A h qs rs'"
    by (auto simp: representsAll_def list_all2_Cons1)
  from Cons.prems(1) q have "representsAll A h (setProperty (fst q) (snd q) vps) (setProperty (fst r) (snd r) ps)"
    by (simp add: representsAll_setProperty)
  from Cons.IH [OF this rest] rs show ?case by simp
qed

lemma represents_ownProperties:
  "represents A h v j \<Longrightarrow> representsAll A h (ownPropertiesH h v) (ownProperties j)"
proof (cases j)
  case (JArray xs)
  assume "represents A h v j"
  with JArray obtain a vs where v: "v = VRef a" and cell: "cellAt h a = Some (ArrayCell vs)"
    and all: "list_all2 (represents A h) vs xs"
    by (auto simp: represents_JArray)
  from all have len: "length vs = length xs"
    by (rule list_all2_lengthD)
  have "representsAll A h (map (\<lambda>i. (indexName i, vs ! i)) [0..<length vs])
          (map (\<lambda>i. (indexName i, xs ! i)) [0..<length xs])"
    unfolding representsAll_def list_all2_map1 list_all2_map2 len
    using all by (auto simp: list_all2_conv_all_nth intro!: list_all2_all_nthI)
  with JArray v cell show ?thesis by simp
next
  case (JString s)
  assume "represents A h v j"
  with JString show ?thesis
    by (auto simp: representsAll_def list_all2_map1 list_all2_map2 intro!: list_all2_all_nthI)
next
  case (JObject ps)
  assume "represents A h v j"
  with JObject show ?thesis
    by (auto simp: represents_JObject)
qed (auto simp: representsAll_def)

lemma represents_isObject: "represents A h v j \<Longrightarrow> isObjectH h v \<longleftrightarrow> isObject j"
  by (cases j) (auto simp: isObject_def represents_JObject represents_JArray isObjectH.simps)

text \<open>What the helpers do to the cell at \<open>out\<close>, and that they keep the others.\<close>

lemma cellAt_setPropertyH_same:
  "cellAt h out = Some (ObjectCell vps) \<Longrightarrow>
   cellAt (setPropertyH h out k v) out = Some (ObjectCell (setProperty k v vps))"
  by (auto simp: setPropertyH_def cellAt_def split: if_splits)

lemma cellAt_setPropertyH_other:
  "a \<noteq> out \<Longrightarrow> cellAt (setPropertyH h out k v) a = cellAt h a"
  by (auto simp: setPropertyH_def cellAt_def split: option.splits cell.splits)

lemma cellAt_foldl_setPropertyH:
  "cellAt h out = Some (ObjectCell vps) \<Longrightarrow>
   cellAt (foldl (\<lambda>h' p. setPropertyH h' out (fst p) (snd p)) h qs) out =
     Some (ObjectCell (foldl (\<lambda>outp p. setProperty (fst p) (snd p) outp) vps qs))"
  by (induction qs arbitrary: h vps) (simp_all add: cellAt_setPropertyH_same)

lemma cellAt_foldl_setPropertyH_other:
  "a \<noteq> out \<Longrightarrow> cellAt (foldl (\<lambda>h' p. setPropertyH h' out (fst p) (snd p)) h qs) a = cellAt h a"
  by (induction qs arbitrary: h) (simp_all add: cellAt_setPropertyH_other)

lemma cellAt_append: "cellAt h a = Some c \<Longrightarrow> cellAt (h @ cs) a = Some c"
  by (auto simp: cellAt_def nth_append split: if_splits)

lemma cellAt_assignLiteralH_same:
  assumes "cellAt h out = Some (ObjectCell vps)"
  shows "cellAt (assignLiteralH h out key v) out = Some (ObjectCell (setProperty key v vps))"
proof -
  let ?h1 = "h @ [ObjectCell [(key, v)]]"
  have "ownPropertiesH ?h1 (VRef (length h)) = [(key, v)]"
    by (simp add: cellAt_def)
  moreover have "cellAt ?h1 out = Some (ObjectCell vps)"
    using assms by (rule cellAt_append)
  ultimately show ?thesis
    by (simp add: assignLiteralH_def Let_def Object_assignH_def cellAt_setPropertyH_same)
qed

lemma cellAt_assignLiteralH_other:
  assumes "a \<noteq> out" and "cellAt h a = Some c"
  shows "cellAt (assignLiteralH h out key v) a = Some c"
  using assms
  by (simp add: assignLiteralH_def Let_def Object_assignH_def cellAt_foldl_setPropertyH_other
      cellAt_append)

lemma represents_getProperty:
  assumes "represents A h v j"
  shows "(getPropertyH h v key = None \<and> map_of (ownProperties j) key = None)
   \<or> (\<exists>pv pj. getPropertyH h v key = Some pv \<and> map_of (ownProperties j) key = Some pj
         \<and> represents A h pv pj)"
  using representsAll_map_of [OF represents_ownProperties [OF assms], of key]
  by (simp add: getPropertyH_def)

text \<open>
  The loop on the heap follows the loop on JSON values, here with \<open>step\<close> for its body on
  keys that name no inherited property: the properties of the cell at \<open>out\<close> stay in step
  with \<open>output\<close>. Values of the arguments lie below \<open>b\<close>, results of nested calls above
  \<open>out\<close>, and neither is touched by a write to \<open>out\<close>.
\<close>

lemma forEachH_refines:
  fixes b out :: nat and jt js :: json
  defines "A \<equiv> \<lambda>a. a < b" and "A' \<equiv> \<lambda>a. a < b \<or> out < a"
  assumes nested: "\<And>h t' s' jt' js'. represents A h t' jt' \<Longrightarrow> represents A h s' js' \<Longrightarrow>
      plainKeys jt' \<Longrightarrow> plainKeys js' \<Longrightarrow> b \<le> length h \<Longrightarrow> size js' < size js \<Longrightarrow>
      \<exists>h'. deepMergeH n h t' s' = Some (VRef (length h), h')
        \<and> represents (\<lambda>a. a < b \<or> length h \<le> a) h' (VRef (length h)) (deepMerge jt' js')"
    and step: "\<And>outp key. step outp key =
      (case map_of (ownProperties js) key of
         None \<Rightarrow> outp
       | Some sv \<Rightarrow>
           if isObject sv then
             (case map_of (ownProperties jt) key of
                None \<Rightarrow> setProperty key sv outp
              | Some tv \<Rightarrow> setProperty key (deepMerge tv sv) outp)
           else setProperty key sv outp)"
    and bound: "b \<le> out" and obj: "isObject js" and objt: "isObject jt"
    and plain: "plainKeys jt" "plainKeys js"
  shows "represents A h t jt \<Longrightarrow> represents A h s js \<Longrightarrow>
     cellAt h out = Some (ObjectCell vps) \<Longrightarrow> representsAll A' h vps outp \<Longrightarrow>
     \<exists>h' vps'. forEachH n h t s out keys = Some h' \<and> cellAt h' out = Some (ObjectCell vps')
       \<and> representsAll A' h' vps' (foldl step outp keys)"
proof (induction keys arbitrary: h vps outp)
  case Nil
  then show ?case by simp
next
  case (Cons key keys)
  note t = Cons.prems(1) and s = Cons.prems(2) and cell = Cons.prems(3) and props = Cons.prems(4)
  from cell have out_len: "out < length h"
    by (simp add: cellAt_def split: if_splits)
  show ?case
  proof (cases "map_of (ownProperties js) key")
    case None
    with represents_getProperty [OF s, of key] have "getPropertyH h s key = None"
      by auto
    with None Cons.IH [OF t s cell props] show ?thesis
      by (simp add: step)
  next
    case (Some jsv)
    with represents_getProperty [OF s, of key] obtain sv
      where sv: "getPropertyH h s key = Some sv" and rsv: "represents A h sv jsv"
      by auto
    have isobj: "isObjectH h sv \<longleftrightarrow> isObject jsv"
      using rsv by (rule represents_isObject)
    \<comment> \<open>the branches that assign the source's value\<close>
    have literal: ?thesis
      if run: "forEachH n h t s out (key # keys) =
          forEachH n (assignLiteralH h out key sv) t s out keys"
        and pure: "step outp key = setProperty key jsv outp"
    proof -
      let ?h1 = "assignLiteralH h out key sv"
      have keep: "\<forall>a c. A a \<and> cellAt h a = Some c \<longrightarrow> A a \<and> cellAt ?h1 a = Some c"
        using bound by (auto simp: A_def intro: cellAt_assignLiteralH_other)
      have keep': "\<forall>a c. A' a \<and> cellAt h a = Some c \<longrightarrow> A' a \<and> cellAt ?h1 a = Some c"
        using bound by (auto simp: A'_def intro: cellAt_assignLiteralH_other)
      have widen: "\<forall>a c. A a \<and> cellAt h a = Some c \<longrightarrow> A' a \<and> cellAt ?h1 a = Some c"
        using bound by (auto simp: A_def A'_def intro: cellAt_assignLiteralH_other)
      have "representsAll A' ?h1 (setProperty key sv vps) (setProperty key jsv outp)"
        using representsAll_transfer [OF props keep'] represents_transfer [OF rsv widen]
        by (rule representsAll_setProperty)
      from Cons.IH [OF represents_transfer [OF t keep] represents_transfer [OF s keep]
          cellAt_assignLiteralH_same [OF cell] this]
      show ?thesis
        using run pure by simp
    qed
    show ?thesis
    proof (cases "isObject jsv")
      case False
      with Some sv isobj show ?thesis
        by (intro literal) (simp_all add: step)
    next
      case True
      show ?thesis
      proof (cases "map_of (ownProperties jt) key")
        case None
        with represents_getProperty [OF t, of key] have "getPropertyH h t key = None"
          by auto
        with None True Some sv isobj show ?thesis
          by (intro literal) (simp_all add: step)
      next
        case jtv: (Some jtv)
        with represents_getProperty [OF t, of key] obtain tv
          where tv: "getPropertyH h t key = Some tv" and rtv: "represents A h tv jtv"
          by auto
        have "size jsv < size js"
          using obj Some by (rule own_property_smaller)
        moreover have "plainKeys jtv" and "plainKeys jsv"
          using plainKeys_property [OF objt plain(1) jtv] plainKeys_property [OF obj plain(2) Some]
          by simp_all
        ultimately obtain h1
          where call: "deepMergeH n h tv sv = Some (VRef (length h), h1)"
            and merged: "represents (\<lambda>a. a < b \<or> length h \<le> a) h1 (VRef (length h)) (deepMerge jtv jsv)"
          using nested [OF rtv rsv] bound out_len by auto
        from frame_both(1) [OF call] have pre: "prefix h h1"
          by simp
        let ?h2 = "setPropertyH h1 out key (VRef (length h))"
        have same: "cellAt ?h2 a = Some c" if "a \<noteq> out" "cellAt h a = Some c" for a c
          using that pre by (simp add: cellAt_setPropertyH_other cellAt_prefix)
        have keep: "\<forall>a c. A a \<and> cellAt h a = Some c \<longrightarrow> A a \<and> cellAt ?h2 a = Some c"
          using bound by (auto simp: A_def intro: same)
        have keep': "\<forall>a c. A' a \<and> cellAt h a = Some c \<longrightarrow> A' a \<and> cellAt ?h2 a = Some c"
          using bound by (auto simp: A'_def intro: same)
        have new: "\<forall>a c. (a < b \<or> length h \<le> a) \<and> cellAt h1 a = Some c
            \<longrightarrow> A' a \<and> cellAt ?h2 a = Some c"
        proof (intro allI impI, elim conjE)
          fix a c
          assume range: "a < b \<or> length h \<le> a" and c: "cellAt h1 a = Some c"
          from range bound out_len have "a \<noteq> out" and "A' a"
            by (auto simp: A'_def)
          with c show "A' a \<and> cellAt ?h2 a = Some c"
            by (simp add: cellAt_setPropertyH_other)
        qed
        have cell2: "cellAt ?h2 out = Some (ObjectCell (setProperty key (VRef (length h)) vps))"
          by (rule cellAt_setPropertyH_same) (rule cellAt_prefix [OF pre cell])
        have "representsAll A' ?h2 (setProperty key (VRef (length h)) vps)
            (setProperty key (deepMerge jtv jsv) outp)"
          using representsAll_transfer [OF props keep'] represents_transfer [OF merged new]
          by (rule representsAll_setProperty)
        from Cons.IH [OF represents_transfer [OF t keep] represents_transfer [OF s keep] cell2 this]
        show ?thesis
          using Some jtv True sv tv isobj call by (simp add: step)
      qed
    qed
  qed
qed

text \<open>
  The call on the heap and the call on JSON values, for arguments held below \<open>b\<close>.
\<close>

lemma deepMergeH_refines_bounded:
  "represents (\<lambda>a. a < b) h t jt \<Longrightarrow> represents (\<lambda>a. a < b) h s js \<Longrightarrow>
   plainKeys jt \<Longrightarrow> plainKeys js \<Longrightarrow> b \<le> length h \<Longrightarrow> size js < n \<Longrightarrow>
   \<exists>h'. deepMergeH n h t s = Some (VRef (length h), h')
     \<and> represents (\<lambda>a. a < b \<or> length h \<le> a) h' (VRef (length h)) (deepMerge jt js)"
proof (induction n arbitrary: h t s jt js)
  case 0
  then show ?case by simp
next
  case (Suc m)
  note t = Suc.prems(1) and s = Suc.prems(2) and plain = Suc.prems(3,4) and bound = Suc.prems(5)
  let ?A = "\<lambda>a. a < b" and ?A' = "\<lambda>a. a < b \<or> length h < a"
  let ?R = "\<lambda>a. a < b \<or> length h \<le> a"
  let ?out = "length h"
  let ?h1 = "h @ [ObjectCell []]"
  let ?h2 = "Object_assignH ?h1 ?out t"
  let ?vps = "foldl (\<lambda>outp p. setProperty (fst p) (snd p) outp) [] (ownPropertiesH ?h1 t)"
  let ?copy = "foldl (\<lambda>outp p. setProperty (fst p) (snd p) outp) [] (ownProperties jt)"
  have cell1: "cellAt ?h1 ?out = Some (ObjectCell [])"
    by (simp add: cellAt_def)
  have cell2: "cellAt ?h2 ?out = Some (ObjectCell ?vps)"
    using cell1 by (simp add: Object_assignH_def cellAt_foldl_setPropertyH)
  have same: "cellAt ?h2 a = Some c" if "a \<noteq> ?out" "cellAt h a = Some c" for a c
    using that by (simp add: Object_assignH_def cellAt_foldl_setPropertyH_other cellAt_append)
  have keep1: "\<forall>a c. ?A a \<and> cellAt h a = Some c \<longrightarrow> ?A a \<and> cellAt ?h1 a = Some c"
    by (auto intro: cellAt_append)
  have keep2: "\<forall>a c. ?A a \<and> cellAt h a = Some c \<longrightarrow> ?A a \<and> cellAt ?h2 a = Some c"
    using bound by (auto intro: same)
  have widen: "\<forall>a c. ?A a \<and> cellAt ?h1 a = Some c \<longrightarrow> ?A' a \<and> cellAt ?h2 a = Some c"
    using bound by (auto simp: Object_assignH_def cellAt_foldl_setPropertyH_other)
  have t2: "represents ?A ?h2 t jt" and s2: "represents ?A ?h2 s js"
    using represents_transfer [OF t keep2] represents_transfer [OF s keep2] by simp_all
  have "representsAll ?A ?h1 (ownPropertiesH ?h1 t) (ownProperties jt)"
    using represents_transfer [OF t keep1] by (rule represents_ownProperties)
  then have "representsAll ?A ?h1 ?vps ?copy"
    by (intro representsAll_foldl) (simp_all add: representsAll_def)
  then have copy: "representsAll ?A' ?h2 ?vps ?copy"
    using widen by (rule representsAll_transfer)
  have objs: "isObjectH ?h2 t \<longleftrightarrow> isObject jt" "isObjectH ?h2 s \<longleftrightarrow> isObject js"
    using t2 s2 by (simp_all add: represents_isObject)
  show ?case
  proof (cases "isObject jt \<and> isObject js")
    case False
    have "representsAll ?R ?h2 ?vps ?copy"
      using copy by (rule representsAll_transfer) auto
    with cell2 have "represents ?R ?h2 (VRef ?out) (JObject ?copy)"
      by (simp add: represents_JObject)
    with False objs plain(1) show ?thesis
      by (auto simp: Let_def deepMerge_not_objects_plain)
  next
    case True
    from True t s obtain tps sps where jt: "jt = JObject tps" and js: "js = JObject sps"
      by (auto simp: isObject_iff)
    define step where "step = (\<lambda>outp key.
          case map_of sps key of
            None \<Rightarrow> outp
          | Some sv \<Rightarrow>
              if isObject sv then
                (case map_of tps key of
                   None \<Rightarrow> setProperty key sv outp
                 | Some tv \<Rightarrow> setProperty key (deepMerge tv sv) outp)
              else setProperty key sv outp)"
    have pure: "deepMerge jt js = JObject (foldl step ?copy (Object_keys js))"
      using plain unfolding jt js step_def
      by (simp add: deepMerge_plain Object_keys_def)
    have keys: "Object_keysH ?h2 s = Object_keys js"
      using representsAll_keys [OF represents_ownProperties [OF s2]]
      by (simp add: Object_keysH_def Object_keys_def)
    have nested: "\<exists>h'. deepMergeH m h0 t' s' = Some (VRef (length h0), h')
        \<and> represents (\<lambda>a. a < b \<or> length h0 \<le> a) h' (VRef (length h0)) (deepMerge jt' js')"
      if "represents ?A h0 t' jt'" "represents ?A h0 s' js'" "plainKeys jt'" "plainKeys js'"
        "b \<le> length h0" "size js' < size js"
      for h0 t' s' jt' js'
      using that Suc.prems(6) by (intro Suc.IH) simp_all
    from True have obj: "isObject js" and objt: "isObject jt" by simp_all
    have step_eq: "step outp key =
      (case map_of (ownProperties js) key of
         None \<Rightarrow> outp
       | Some sv \<Rightarrow>
           if isObject sv then
             (case map_of (ownProperties jt) key of
                None \<Rightarrow> setProperty key sv outp
              | Some tv \<Rightarrow> setProperty key (deepMerge tv sv) outp)
           else setProperty key sv outp)" for outp key
      unfolding step_def jt js ownProperties.simps by (rule refl)
    have "\<exists>h' vps'. forEachH m ?h2 t s ?out (Object_keys js) = Some h'
        \<and> cellAt h' ?out = Some (ObjectCell vps')
        \<and> representsAll ?A' h' vps' (foldl step ?copy (Object_keys js))"
      by (rule forEachH_refines [where step = step,
            OF nested step_eq bound obj objt plain t2 s2 cell2 copy])
    then obtain h' vps' where loop: "forEachH m ?h2 t s ?out (Object_keys js) = Some h'"
      and cell': "cellAt h' ?out = Some (ObjectCell vps')"
      and final: "representsAll ?A' h' vps' (foldl step ?copy (Object_keys js))"
      by blast
    have "representsAll ?R h' vps' (foldl step ?copy (Object_keys js))"
      using final by (rule representsAll_transfer) auto
    with cell' have "represents ?R h' (VRef ?out) (deepMerge jt js)"
      by (simp add: pure represents_JObject)
    with True objs loop keys show ?thesis
      by (simp add: Let_def)
  qed
qed

text \<open>A JSON value held in the heap is of finite nesting.\<close>

lemma represents_nestedWithin:
  "represents A h v j \<Longrightarrow> size j \<le> n \<Longrightarrow> nestedWithin n h v"
proof (induction n arbitrary: v j)
  case 0
  then show ?case
    by (cases j) (auto simp: represents_JArray)
next
  case (Suc n)
  show ?case
  proof (cases j)
    case (JObject ps)
    with Suc.prems(1) obtain a vps where v: "v = VRef a"
      and cell: "cellAt h a = Some (ObjectCell vps)" and all: "representsAll A h vps ps"
      by (auto simp: represents_JObject)
    have "nestedWithin n h (snd vp)" if "vp \<in> set vps" for vp
    proof -
      from that obtain i where i: "i < length vps" and vp: "vp = vps ! i"
        by (auto simp: in_set_conv_nth)
      from all i have len: "i < length ps"
        and rep': "represents A h (snd (vps ! i)) (snd (ps ! i))"
        by (simp_all add: representsAll_def list_all2_conv_all_nth)
      define p where "p = ps ! i"
      from len rep' vp have p: "p \<in> set ps" and rep: "represents A h (snd vp) (snd p)"
        by (simp_all add: p_def)
      from p have "size (snd p) < Suc (size_list (size_prod (\<lambda>_. 0) size) ps)"
        by (induction ps) auto
      with Suc.prems(2) JObject have "size (snd p) \<le> n"
        by simp
      with rep show ?thesis
        by (rule Suc.IH)
    qed
    with v cell show ?thesis
      by (simp add: list_all_iff)
  qed (use Suc.prems in \<open>auto simp: represents_JArray\<close>)
qed

text \<open>
  For a target and a source that the heap holds as the JSON values \<open>jt\<close> and \<open>js\<close>, with
  keys that name no inherited property, the call on the heap returns, given stack for the
  nesting of the source, a new object that the resulting heap holds as \<open>deepMerge jt js\<close>.
\<close>

lemma deepMergeH_refines_deepMerge:
  assumes "represents (\<lambda>a. a < length h) h target jt"
    and "represents (\<lambda>a. a < length h) h source js"
    and "plainKeys jt" and "plainKeys js"
    and "size js < n"
  shows "\<exists>h'. deepMergeH n h target source = Some (VRef (length h), h')
     \<and> represents (\<lambda>a. True) h' (VRef (length h)) (deepMerge jt js)"
proof -
  from deepMergeH_refines_bounded [OF assms(1,2,3,4) order_refl assms(5)] obtain h'
    where run: "deepMergeH n h target source = Some (VRef (length h), h')"
      and rep: "represents (\<lambda>a. a < length h \<or> length h \<le> a) h' (VRef (length h)) (deepMerge jt js)"
    by blast
  from rep have "represents (\<lambda>a. True) h' (VRef (length h)) (deepMerge jt js)"
    by (rule represents_transfer) simp
  with run show ?thesis by blast
qed

text \<open>
  C10: \<^verbatim>\<open>deepMerge(target, source)\<close> returns a new mapping and mutates neither argument at
  any depth. On the heap: for a source of finite nesting the call returns a reference to
  an object allocated by the call, at the first address past the old heap, and every
  cell of the old heap, hence everything reachable from \<open>target\<close> and \<open>source\<close>, is as it
  was.
\<close>

theorem deepMergeH_fresh_result_old_heap_unchanged:
  assumes "nestedWithin n h source"
  shows "\<exists>h'. deepMergeH (Suc n) h target source = Some (VRef (length h), h')
     \<and> length h < length h' \<and> take (length h) h' = h \<and> isObjectH h' (VRef (length h))"
proof -
  from deepMergeH_total [OF assms, of h target] obtain r h'
    where run: "deepMergeH (Suc n) h target source = Some (r, h')"
    by auto
  from frame_both(1) [OF run]
  have r: "r = VRef (length h)" and pre: "prefix h h'"
    and len: "length h < length h'" and obj: "isObjectH h' r"
    by auto
  from pre have "take (length h) h' = h"
    by (auto simp: prefix_def)
  with run r len obj show ?thesis
    by auto
qed

theorem deepMergeH_fresh_result_old_heap_unchanged_witness:
  "nestedWithin 2 exampleHeap (VRef 2)
   \<and> (\<exists>h'. deepMergeH 3 exampleHeap (VRef 0) (VRef 2) = Some (VRef 4, h')
         \<and> 4 < length h' \<and> take 4 h' = exampleHeap \<and> isObjectH h' (VRef 4))"
proof -
  have nested: "nestedWithin (Suc (Suc 0)) exampleHeap (VRef 2)"
    by (simp add: exampleHeap_def cellAt_def)
  have len: "length exampleHeap = 4"
    by (simp add: exampleHeap_def)
  from deepMergeH_fresh_result_old_heap_unchanged [OF nested, of "VRef 0"] nested len
  show ?thesis
    by (simp add: numeral_2_eq_2 numeral_3_eq_3)
qed

section \<open>Properties of reading the settings files\<close>

lemmas io_defs = bind_def return_def fileExists_def readJson_def showErrorMessage_def
  showInformationMessage_def getSettingFilePath_def getSettingsFileContent_def getFileContent_def

lemma getFileContent_absent:
  "files h filePath = None \<Longrightarrow>
   getFileContent filePath h =
     (Return (JObject []),
      h\<lparr>notifications := notifications h @ [ErrorMessage (''Settings file not found: '' @ filePath)]\<rparr>)"
  by (simp add: io_defs)

lemma getFileContent_content:
  "files h filePath = Some (Content j) \<Longrightarrow> getFileContent filePath h = (Return j, h)"
  by (simp add: io_defs)

lemma getFileContent_malformed:
  "files h filePath = Some (Malformed m) \<Longrightarrow>
   getFileContent filePath h =
     (Return (JObject []),
      h\<lparr>notifications := notifications h @ [ErrorMessage (''Error reading settings file: '' @ m)]\<rparr>)"
  by (simp add: io_defs)

lemma getFileContent_unreadable:
  "files h filePath = Some (Unreadable m) \<Longrightarrow>
   getFileContent filePath h =
     (Return (JObject []),
      h\<lparr>notifications := notifications h @ [ErrorMessage (''Error reading settings file: '' @ m)]\<rparr>)"
  by (simp add: io_defs)

lemma getSettingsFileContent_open:
  "workspaceFolders h = Some (root # rest) \<Longrightarrow>
   getSettingsFileContent os h =
     getFileContent (path_join [root, ''.vscode'',
        if os_truthy os then ''settings.'' @ os_text os @ ''.json'' else ''settings.json'']) h"
  by (simp add: getSettingsFileContent_def getSettingFilePath_def bind_def)

lemma getSettingsFileContent_closed:
  "workspaceFolders h = None \<Longrightarrow>
   getSettingsFileContent os h =
     (Throw (TypeError ''Cannot read properties of undefined (reading '0')''), h)"
  by (simp add: getSettingsFileContent_def getSettingFilePath_def bind_def)

lemma PLATFORMS_all: "PLATFORMS_all = OsName ''all''"
  by (simp add: PLATFORMS_all_def PLATFORMS_def)

lemma getFileContent_returns: "\<exists>j h'. getFileContent filePath h = (Return j, h')"
  by (cases "files h filePath"; cases "the (files h filePath)") (auto simp: io_defs)

text \<open>
  C5 as amended: \<^verbatim>\<open>getDefaultSettingsFileContent\<close> is \<^verbatim>\<open>getSettingsFileContent('all')\<close>, with
  the same notifications and the same exception if any, in every state in which
  \<^verbatim>\<open>settings.all.json\<close> does not parse to a falsy JSON value (\<^verbatim>\<open>null\<close>, \<^verbatim>\<open>false\<close>, \<^verbatim>\<open>0\<close>,
  \<^verbatim>\<open>""\<close>); in those states the fallback branches are not reached.
\<close>

theorem getDefaultSettingsFileContent_is_all:
  assumes "\<forall>root rest j. workspaceFolders h = Some (root # rest) \<and>
      files h (path_join [root, ''.vscode'', ''settings.all.json'']) = Some (Content j)
      \<longrightarrow> truthy j"
  shows "getDefaultSettingsFileContent h = getSettingsFileContent (OsName ''all'') h"
proof (cases "workspaceFolders h")
  case None
  then show ?thesis
    by (simp add: getDefaultSettingsFileContent_def PLATFORMS_all bind_def getSettingsFileContent_closed)
next
  case (Some folders)
  show ?thesis
  proof (cases folders)
    case Nil
    with Some show ?thesis
      by (simp add: getDefaultSettingsFileContent_def PLATFORMS_all bind_def
          getSettingsFileContent_def getSettingFilePath_def)
  next
    case (Cons root rest)
    with Some have ws: "workspaceFolders h = Some (root # rest)" by simp
    let ?p = "path_join [root, ''.vscode'', ''settings.all.json'']"
    show ?thesis
    proof (cases "files h ?p")
      case None
      with ws show ?thesis
        by (simp add: getDefaultSettingsFileContent_def PLATFORMS_all bind_def return_def
            getSettingsFileContent_open getFileContent_absent)
    next
      case (Some e)
      show ?thesis
      proof (cases e)
        case (Content j)
        with Some ws assms have "truthy j" by simp
        with Content Some ws show ?thesis
          by (simp add: getDefaultSettingsFileContent_def PLATFORMS_all bind_def return_def
              getSettingsFileContent_open getFileContent_content)
      next
        case (Malformed m)
        with Some ws show ?thesis
          by (simp add: getDefaultSettingsFileContent_def PLATFORMS_all bind_def return_def
              getSettingsFileContent_open getFileContent_malformed)
      next
        case (Unreadable m)
        with Some ws show ?thesis
          by (simp add: getDefaultSettingsFileContent_def PLATFORMS_all bind_def return_def
              getSettingsFileContent_open getFileContent_unreadable)
      qed
    qed
  qed
qed

theorem getDefaultSettingsFileContent_is_all_witness:
  "files
     (exampleHost [(''/w/.vscode/settings.all.json'', Content (JObject [(''a'', JNumber 1)])),
                   (''/w/.vscode/settings.json'', Content (JObject [(''b'', JNumber 2)]))])
     (path_join [''/w'', ''.vscode'', ''settings.all.json''])
     = Some (Content (JObject [(''a'', JNumber 1)]))
   \<and> truthy (JObject [(''a'', JNumber 1)])
   \<and> getDefaultSettingsFileContent
        (exampleHost [(''/w/.vscode/settings.all.json'', Content (JObject [(''a'', JNumber 1)])),
                      (''/w/.vscode/settings.json'', Content (JObject [(''b'', JNumber 2)]))])
     = getSettingsFileContent (OsName ''all'')
        (exampleHost [(''/w/.vscode/settings.all.json'', Content (JObject [(''a'', JNumber 1)])),
                      (''/w/.vscode/settings.json'', Content (JObject [(''b'', JNumber 2)]))])"
proof -
  let ?h = "exampleHost [(''/w/.vscode/settings.all.json'', Content (JObject [(''a'', JNumber 1)])),
                         (''/w/.vscode/settings.json'', Content (JObject [(''b'', JNumber 2)]))]"
  have hyp: "\<forall>root rest j. workspaceFolders ?h = Some (root # rest) \<and>
      files ?h (path_join [root, ''.vscode'', ''settings.all.json'']) = Some (Content j)
      \<longrightarrow> truthy j"
    by (auto simp: exampleHost_def)
  have "files ?h (path_join [''/w'', ''.vscode'', ''settings.all.json''])
      = Some (Content (JObject [(''a'', JNumber 1)]))"
    by (simp add: exampleHost_def)
  with getDefaultSettingsFileContent_is_all [OF hyp] show ?thesis
    by simp
qed

text \<open>
  C5 as stated, equality in every file system state, fails: with \<^verbatim>\<open>null\<close> in
  \<^verbatim>\<open>settings.all.json\<close> the first read returns \<^verbatim>\<open>null\<close>, which is falsy, and the content of
  \<^verbatim>\<open>settings.json\<close> is returned instead.
\<close>

theorem getDefaultSettingsFileContent_null_all_differs:
  "getDefaultSettingsFileContent
     (exampleHost [(''/w/.vscode/settings.all.json'', Content JNull),
                   (''/w/.vscode/settings.json'', Content (JObject [(''a'', JNumber 1)]))])
   \<noteq> getSettingsFileContent (OsName ''all'')
     (exampleHost [(''/w/.vscode/settings.all.json'', Content JNull),
                   (''/w/.vscode/settings.json'', Content (JObject [(''a'', JNumber 1)]))])"
  by (simp add: exampleHost_def getDefaultSettingsFileContent_def PLATFORMS_all bind_def return_def
      getSettingsFileContent_open getFileContent_content)

text \<open>
  C3 as amended: with both \<^verbatim>\<open>settings.all.json\<close> and an OS-specific settings file present,
  and \<^verbatim>\<open>settings.all.json\<close> parsing to a JSON value other than \<^verbatim>\<open>null\<close>, \<^verbatim>\<open>false\<close>, \<^verbatim>\<open>0\<close> and
  \<^verbatim>\<open>""\<close> (every settings object is one), the default settings are the content of
  \<^verbatim>\<open>settings.all.json\<close>; the OS-specific file plays no part, and nothing is shown.
\<close>

theorem getDefaultSettingsFileContent_prefers_all:
  assumes "workspaceFolders h = Some (root # rest)"
    and "files h (path_join [root, ''.vscode'', ''settings.all.json'']) = Some (Content j)"
    and "truthy j"
    and "files h (path_join [root, ''.vscode'', ''settings.'' @ os @ ''.json'']) = Some e"
  shows "getDefaultSettingsFileContent h = (Return j, h)"
  using assms(1,2,3)
  by (simp add: getDefaultSettingsFileContent_def PLATFORMS_all bind_def return_def
      getSettingsFileContent_open getFileContent_content)

theorem getDefaultSettingsFileContent_prefers_all_witness:
  "workspaceFolders
     (exampleHost [(''/w/.vscode/settings.all.json'', Content (JObject [(''a'', JNumber 1)])),
                   (''/w/.vscode/settings.linux.json'', Content (JObject [(''a'', JNumber 2)]))])
     = Some [''/w'']
   \<and> truthy (JObject [(''a'', JNumber 1)])
   \<and> getDefaultSettingsFileContent
       (exampleHost [(''/w/.vscode/settings.all.json'', Content (JObject [(''a'', JNumber 1)])),
                     (''/w/.vscode/settings.linux.json'', Content (JObject [(''a'', JNumber 2)]))])
     = (Return (JObject [(''a'', JNumber 1)]),
        exampleHost [(''/w/.vscode/settings.all.json'', Content (JObject [(''a'', JNumber 1)])),
                     (''/w/.vscode/settings.linux.json'', Content (JObject [(''a'', JNumber 2)]))])"
  using getDefaultSettingsFileContent_prefers_all
    [of "exampleHost [(''/w/.vscode/settings.all.json'', Content (JObject [(''a'', JNumber 1)])),
                      (''/w/.vscode/settings.linux.json'', Content (JObject [(''a'', JNumber 2)]))]"
        "''/w''" "[]" "JObject [(''a'', JNumber 1)]" "''linux''" "Content (JObject [(''a'', JNumber 2)])"]
  by (simp add: exampleHost_def)

text \<open>
  C3 as stated, for every state in which both files exist, fails: with \<^verbatim>\<open>null\<close> in
  \<^verbatim>\<open>settings.all.json\<close> and \<^verbatim>\<open>settings.linux.json\<close> present, the first read returns \<^verbatim>\<open>null\<close>,
  which is falsy, and the result is the content of \<^verbatim>\<open>settings.json\<close>, not that of
  \<^verbatim>\<open>settings.all.json\<close>.
\<close>

theorem getDefaultSettingsFileContent_null_all_not_returned:
  "files
     (exampleHost [(''/w/.vscode/settings.all.json'', Content JNull),
                   (''/w/.vscode/settings.linux.json'', Content (JObject [(''a'', JNumber 2)])),
                   (''/w/.vscode/settings.json'', Content (JObject [(''b'', JNumber 3)]))])
     ''/w/.vscode/settings.all.json'' = Some (Content JNull)
   \<and> files
     (exampleHost [(''/w/.vscode/settings.all.json'', Content JNull),
                   (''/w/.vscode/settings.linux.json'', Content (JObject [(''a'', JNumber 2)])),
                   (''/w/.vscode/settings.json'', Content (JObject [(''b'', JNumber 3)]))])
     ''/w/.vscode/settings.linux.json'' = Some (Content (JObject [(''a'', JNumber 2)]))
   \<and> fst (getDefaultSettingsFileContent
     (exampleHost [(''/w/.vscode/settings.all.json'', Content JNull),
                   (''/w/.vscode/settings.linux.json'', Content (JObject [(''a'', JNumber 2)])),
                   (''/w/.vscode/settings.json'', Content (JObject [(''b'', JNumber 3)]))]))
     = Return (JObject [(''b'', JNumber 3)])
   \<and> fst (getDefaultSettingsFileContent
     (exampleHost [(''/w/.vscode/settings.all.json'', Content JNull),
                   (''/w/.vscode/settings.linux.json'', Content (JObject [(''a'', JNumber 2)])),
                   (''/w/.vscode/settings.json'', Content (JObject [(''b'', JNumber 3)]))]))
     \<noteq> Return JNull"
  by (simp add: exampleHost_def getDefaultSettingsFileContent_def PLATFORMS_all bind_def return_def
      getSettingsFileContent_open getFileContent_content)

text \<open>
  C6: reading a settings file whose text is not valid JSON returns the empty mapping; the
  parse error is not thrown on, only shown.
\<close>

theorem getFileContent_malformed_json:
  "files h filePath = Some (Malformed m) \<Longrightarrow>
   getFileContent filePath h =
     (Return (JObject []),
      h\<lparr>notifications := notifications h @ [ErrorMessage (''Error reading settings file: '' @ m)]\<rparr>)"
  by (simp add: io_defs)

theorem getFileContent_malformed_json_witness:
  "files (exampleHost [(''/w/.vscode/settings.linux.json'', Malformed ''Unexpected end of JSON input'')])
     ''/w/.vscode/settings.linux.json'' = Some (Malformed ''Unexpected end of JSON input'')
   \<and> fst (getFileContent ''/w/.vscode/settings.linux.json''
       (exampleHost [(''/w/.vscode/settings.linux.json'', Malformed ''Unexpected end of JSON input'')]))
     = Return (JObject [])"
  using getFileContent_malformed_json
    [of "exampleHost [(''/w/.vscode/settings.linux.json'', Malformed ''Unexpected end of JSON input'')]"
        "''/w/.vscode/settings.linux.json''" "''Unexpected end of JSON input''"]
  by (simp add: exampleHost_def)

text \<open>
  C7: with none of the candidate settings files on disk, \<^verbatim>\<open>getFileContent\<close> on a missing
  path and \<^verbatim>\<open>getDefaultSettingsFileContent\<close> in an open workspace both return the empty
  mapping, without throwing; the missing file is reported in a notification.
\<close>

theorem resolution_without_files:
  "(files h filePath = None \<longrightarrow>
      getFileContent filePath h =
        (Return (JObject []),
         h\<lparr>notifications := notifications h @
            [ErrorMessage (''Settings file not found: '' @ filePath)]\<rparr>))
   \<and> (workspaceFolders h = Some (root # rest) \<and> (\<forall>p \<in> set (candidateFiles root). files h p = None)
      \<longrightarrow> getDefaultSettingsFileContent h =
        (Return (JObject []),
         h\<lparr>notifications := notifications h @
            [ErrorMessage (''Settings file not found: '' @
               path_join [root, ''.vscode'', ''settings.all.json''])]\<rparr>))"
  by (simp add: getFileContent_absent candidateFiles_def getDefaultSettingsFileContent_def
      PLATFORMS_all bind_def return_def getSettingsFileContent_open)

theorem resolution_without_files_witness:
  "files (exampleHost []) ''/w/.vscode/settings.linux.json'' = None
   \<and> workspaceFolders (exampleHost []) = Some [''/w'']
   \<and> list_all (\<lambda>p. files (exampleHost []) p = None) (candidateFiles ''/w'')
   \<and> fst (getFileContent ''/w/.vscode/settings.linux.json'' (exampleHost [])) = Return (JObject [])
   \<and> fst (getDefaultSettingsFileContent (exampleHost [])) = Return (JObject [])"
  using resolution_without_files [of "exampleHost []" "''/w/.vscode/settings.linux.json''" "''/w''" "[]"]
  by (simp add: exampleHost_def candidateFiles_def)

text \<open>
  C4: resolution tries the specific file, falls back to the generic \<^verbatim>\<open>settings.json\<close> when
  that one is absent, and to the empty mapping when neither can be read. The code has the
  three steps, but the first read answers a missing file with \<^verbatim>\<open>{}\<close>, which is truthy,
  so the second step never runs: in a workspace with \<^verbatim>\<open>settings.json\<close> and
  \<^verbatim>\<open>settings.linux.json\<close> but no \<^verbatim>\<open>settings.all.json\<close> the result is the empty mapping and a
  notification, not the content of \<^verbatim>\<open>settings.json\<close>.
\<close>

theorem getDefaultSettingsFileContent_skips_generic:
  "getDefaultSettingsFileContent
     (exampleHost [(''/w/.vscode/settings.json'', Content (JObject [(''a'', JNumber 1)])),
                   (''/w/.vscode/settings.linux.json'', Content (JObject [(''b'', JNumber 2)]))])
   = (Return (JObject []),
      exampleHost [(''/w/.vscode/settings.json'', Content (JObject [(''a'', JNumber 1)])),
                   (''/w/.vscode/settings.linux.json'', Content (JObject [(''b'', JNumber 2)]))]
        \<lparr>notifications := [ErrorMessage ''Settings file not found: /w/.vscode/settings.all.json'']\<rparr>)"
  by (simp add: exampleHost_def getDefaultSettingsFileContent_def PLATFORMS_all bind_def return_def
      getSettingsFileContent_open getFileContent_absent)

section \<open>Properties of the entry point\<close>

lemma vsCode_no_workspace:
  "workspaceFolders h = None \<Longrightarrow>
   vsCodeUpdateSettingsFile h =
     (Throw (TypeError ''Cannot read properties of undefined (reading '0')''), h)"
  by (simp add: vsCodeUpdateSettingsFile_def isValid_def PLATFORMS_def bind_def getSettingFilePath_def)

lemma mapM_fileExists: "mapM fileExists ps h = (Return (map (\<lambda>p. files h p \<noteq> None) ps), h)"
  by (induction ps) (simp_all add: bind_def return_def fileExists_def)

lemma mapM_getSettingFilePath:
  "workspaceFolders h = Some (root # rest) \<Longrightarrow>
   mapM (\<lambda>os. getSettingFilePath (OsName os)) names h =
     (Return (map (\<lambda>os. path_join [root, ''.vscode'',
         if os = [] then ''settings.json'' else ''settings.'' @ os @ ''.json'']) names), h)"
  by (induction names) (simp_all add: bind_def return_def getSettingFilePath_def)

lemma isValid_open:
  assumes "workspaceFolders h = Some (root # rest)"
  shows "isValid h =
     (Return (files h (path_join [root, ''.vscode'', ''settings.all.json'']) \<noteq> None
            \<or> files h (path_join [root, ''.vscode'', ''settings.windows.json'']) \<noteq> None
            \<or> files h (path_join [root, ''.vscode'', ''settings.macos.json'']) \<noteq> None
            \<or> files h (path_join [root, ''.vscode'', ''settings.linux.json'']) \<noteq> None), h)"
  unfolding isValid_def
  by (subst bind_def, subst mapM_getSettingFilePath [OF assms], simp,
      subst bind_def, subst mapM_fileExists, simp add: return_def resultAt_def PLATFORMS_def)

lemma try_catch_returns:
  "\<exists>h'. try_catch body (\<lambda>error. showErrorMessage (f error)) h = (Return (), h')"
  by (cases "body h"; cases "fst (body h)") (auto simp: try_catch_def showErrorMessage_def)

lemma getOsName_returns:
  "\<exists>os h'. getOsName h = (Return os, h') \<and> workspaceFolders h' = workspaceFolders h"
  by (cases "map_of PLATFORMS (platform h)")
    (simp_all add: getOsName_def Let_def bind_def return_def showErrorMessage_def)

lemma getFileContent_returns2:
  "\<exists>j h'. getFileContent filePath h = (Return j, h') \<and> workspaceFolders h' = workspaceFolders h"
  by (cases "files h filePath"; cases "the (files h filePath)") (auto simp: io_defs)

lemma vsCode_open_returns:
  assumes "workspaceFolders h = Some (root # rest)"
  shows "\<exists>h'. vsCodeUpdateSettingsFile h = (Return (), h')"
proof -
  obtain valid where valid: "isValid h = (Return valid, h)"
    using isValid_open [OF assms] by blast
  show ?thesis
  proof (cases valid)
    case False
    with valid show ?thesis
      by (simp add: vsCodeUpdateSettingsFile_def bind_def showErrorMessage_def)
  next
    case True
    obtain os h1 where os: "getOsName h = (Return os, h1)"
      and h1: "workspaceFolders h1 = workspaceFolders h"
      using getOsName_returns by blast
    from h1 assms have "workspaceFolders h1 = Some (root # rest)" by simp
    then obtain osSettings h2 where content: "getSettingsFileContent os h1 = (Return osSettings, h2)"
      using getFileContent_returns2 by (metis getSettingsFileContent_open)
    from valid True os content assms show ?thesis
      using try_catch_returns by (simp add: vsCodeUpdateSettingsFile_def bind_def)
  qed
qed

text \<open>
  The same state run from the entry point on Linux: \<^verbatim>\<open>settings.json\<close> is never read, and
  is overwritten with the Linux settings merged into the empty mapping.
\<close>

lemma vsCodeUpdateSettingsFile_overwrites_generic:
  "fst (vsCodeUpdateSettingsFile
     (exampleHost [(''/w/.vscode/settings.json'', Content (JObject [(''a'', JNumber 1)])),
                   (''/w/.vscode/settings.linux.json'', Content (JObject [(''b'', JNumber 2)]))]))
     = Return ()
   \<and> files (snd (vsCodeUpdateSettingsFile
     (exampleHost [(''/w/.vscode/settings.json'', Content (JObject [(''a'', JNumber 1)])),
                   (''/w/.vscode/settings.linux.json'', Content (JObject [(''b'', JNumber 2)]))])))
     ''/w/.vscode/settings.json'' = Some (Content (JObject [(''b'', JNumber 2)]))
   \<and> notifications (snd (vsCodeUpdateSettingsFile
     (exampleHost [(''/w/.vscode/settings.json'', Content (JObject [(''a'', JNumber 1)])),
                   (''/w/.vscode/settings.linux.json'', Content (JObject [(''b'', JNumber 2)]))])))
     = [ErrorMessage ''Settings file not found: /w/.vscode/settings.all.json'',
        InformationMessage ''Updated settings.json for linux operating system.'']"
proof -
  let ?h = "exampleHost [(''/w/.vscode/settings.json'', Content (JObject [(''a'', JNumber 1)])),
                         (''/w/.vscode/settings.linux.json'', Content (JObject [(''b'', JNumber 2)]))]"
  let ?h1 = "?h\<lparr>notifications :=
      [ErrorMessage ''Settings file not found: /w/.vscode/settings.all.json'']\<rparr>"
  let ?h2 = "?h1\<lparr>files :=
      (files ?h)(''/w/.vscode/settings.json'' \<mapsto> Content (JObject [(''b'', JNumber 2)]))\<rparr>"
  have ws: "workspaceFolders ?h = Some (''/w'' # [])"
    by (simp add: exampleHost_def)
  have valid: "isValid ?h = (Return True, ?h)"
    by (simp add: isValid_open [OF ws]) (simp add: exampleHost_def)
  have os: "getOsName ?h = (Return (OsName ''linux''), ?h)"
    by (simp add: getOsName_def exampleHost_def PLATFORMS_def return_def Let_def)
  have linux: "getSettingsFileContent (OsName ''linux'') ?h = (Return (JObject [(''b'', JNumber 2)]), ?h)"
    by (simp add: getSettingsFileContent_open getFileContent_content exampleHost_def)
  have path: "getSettingFilePath OsUndefined ?h = (Return ''/w/.vscode/settings.json'', ?h)"
    by (simp add: getSettingFilePath_def exampleHost_def Let_def)
  have found: "fileExists ''/w/.vscode/settings.json'' ?h = (Return True, ?h)"
    by (simp add: fileExists_def exampleHost_def)
  have default: "getDefaultSettingsFileContent ?h = (Return (JObject []), ?h1)"
    by (simp add: exampleHost_def getDefaultSettingsFileContent_def PLATFORMS_all bind_def
        return_def getSettingsFileContent_open getFileContent_absent)
  have merge: "deepMerge (JObject []) (JObject [(''b'', JNumber 2)]) = JObject [(''b'', JNumber 2)]"
    by (simp add: deepMerge.simps isObject_def Object_assign_def Object_keys_def getProperty_def
        ordinarySet.simps)
  have "writeSettings ''/w/.vscode/settings.json'' (JObject [(''b'', JNumber 2)]) ?h1 = (Return (), ?h2)"
    by (simp add: writeSettings_def exampleHost_def)
  then have update: "updateSettingsFile (JObject [(''b'', JNumber 2)]) ?h = (Return (), ?h2)"
    by (simp add: updateSettingsFile_def bind_def path found default merge return_def)
  have guarded: "try_catch
      (bind (updateSettingsFile (JObject [(''b'', JNumber 2)])) (\<lambda>_. showInformationMessage m))
      (\<lambda>error. showErrorMessage (f error)) ?h = showInformationMessage m ?h2" for m f
    by (simp add: try_catch_def bind_def update showInformationMessage_def)
  have "vsCodeUpdateSettingsFile ?h =
      showInformationMessage ''Updated settings.json for linux operating system.'' ?h2"
    unfolding vsCodeUpdateSettingsFile_def
    by (subst bind_def, simp only: valid prod.case outcome.case simp_thms if_False,
        simp only: ws option.simps if_False,
        subst bind_def, simp only: os prod.case outcome.case,
        subst bind_def, simp only: linux prod.case outcome.case guarded)
      simp
  then show ?thesis
    by (simp add: showInformationMessage_def exampleHost_def)
qed

text \<open>
  C2: every failure, among them no workspace folder being open, is reported in a
  notification and the entry point completes normally. Without a workspace folder it
  does not: \<^verbatim>\<open>isValid\<close> builds the paths first, indexing the undefined
  \<^verbatim>\<open>workspaceFolders\<close> throws, and the check for it further down is never reached; the
  call is rejected with the TypeError and nothing is shown.
\<close>

theorem vsCodeUpdateSettingsFile_without_workspace:
  "vsCodeUpdateSettingsFile
     (exampleHost [(''/w/.vscode/settings.linux.json'', Content (JObject []))]
        \<lparr>workspaceFolders := None\<rparr>)
   = (Throw (TypeError ''Cannot read properties of undefined (reading '0')''),
      exampleHost [(''/w/.vscode/settings.linux.json'', Content (JObject []))]
        \<lparr>workspaceFolders := None\<rparr>)"
  by (rule vsCode_no_workspace) (simp add: exampleHost_def)

end
